theory Spec2Isabelle
  imports Main "HOL-Library.Sublist"
begin

section \<open>File Examiner: the policy-gated file tools of \<^verbatim>\<open>fileExaminerTools.ts\<close>\<close>

text \<open>
  The development follows the configuration-aware tools provider (the second
  \<^verbatim>\<open>fileExaminerTools\<close> of the sources: \<^verbatim>\<open>validatePath\<close>, \<^verbatim>\<open>validateExtension\<close>,
  \<^verbatim>\<open>formatFileSize\<close> and the four tool implementations). The first provider and
  the class \<^verbatim>\<open>FileExaminer\<close> of \<^verbatim>\<open>index.js\<close> validate paths in the same way, with
  their restricted paths held in a constant.

  Strings are lists of characters, a character standing for one code unit of the
  JavaScript string (those below 256). The Node.js library functions the tools call (\<^verbatim>\<open>path.resolve\<close>,
  \<^verbatim>\<open>path.join\<close>, \<^verbatim>\<open>path.extname\<close>, \<^verbatim>\<open>path.basename\<close>, \<^verbatim>\<open>path.dirname\<close>,
  \<^verbatim>\<open>RegExp\<close>) are written out in their POSIX form; the file system and the MIME
  table are functions of an environment record. Sizes and times are natural
  numbers.
\<close>

subsection \<open>Strings\<close>

text \<open>
  A character is one code unit of the JavaScript string; the characters of the
  model are the code units below 256 (ASCII and Latin-1). On these
  \<^verbatim>\<open>toLowerCase\<close> works character by character: it maps \<^verbatim>\<open>A\<close> to \<^verbatim>\<open>Z\<close> and the
  Latin-1 capitals (\<open>0xC0\<close> to \<open>0xDE\<close> without the multiplication sign \<open>0xD7\<close>) to
  the letter 32 places further on, and leaves every other character as it is.
\<close>

definition upper_letters :: string where
  "upper_letters = ''ABCDEFGHIJKLMNOPQRSTUVWXYZ'' @
       [CHR 0xC0, CHR 0xC1, CHR 0xC2, CHR 0xC3, CHR 0xC4, CHR 0xC5, CHR 0xC6, CHR 0xC7,
        CHR 0xC8, CHR 0xC9, CHR 0xCA, CHR 0xCB, CHR 0xCC, CHR 0xCD, CHR 0xCE, CHR 0xCF,
        CHR 0xD0, CHR 0xD1, CHR 0xD2, CHR 0xD3, CHR 0xD4, CHR 0xD5, CHR 0xD6, CHR 0xD8,
        CHR 0xD9, CHR 0xDA, CHR 0xDB, CHR 0xDC, CHR 0xDD, CHR 0xDE]"

definition lower_letters :: string where
  "lower_letters = ''abcdefghijklmnopqrstuvwxyz'' @
       [CHR 0xE0, CHR 0xE1, CHR 0xE2, CHR 0xE3, CHR 0xE4, CHR 0xE5, CHR 0xE6, CHR 0xE7,
        CHR 0xE8, CHR 0xE9, CHR 0xEA, CHR 0xEB, CHR 0xEC, CHR 0xED, CHR 0xEE, CHR 0xEF,
        CHR 0xF0, CHR 0xF1, CHR 0xF2, CHR 0xF3, CHR 0xF4, CHR 0xF5, CHR 0xF6, CHR 0xF8,
        CHR 0xF9, CHR 0xFA, CHR 0xFB, CHR 0xFC, CHR 0xFD, CHR 0xFE]"

definition toLowerCase_char :: "char \<Rightarrow> char" where
  "toLowerCase_char c =
     (case map_of (zip upper_letters lower_letters) c of Some l \<Rightarrow> l | None \<Rightarrow> c)"

text \<open>
  \<^verbatim>\<open>toUpperCase\<close> is the converse on the letters above. The three remaining
  lower-case letters of Latin-1 (\<open>0xB5\<close>, \<open>0xDF\<close>, \<open>0xFF\<close>) have upper-case forms
  that are not characters of the model; the tools apply \<^verbatim>\<open>toUpperCase\<close> to the ten
  image extensions only, which are ASCII.
\<close>

definition toUpperCase_char :: "char \<Rightarrow> char" where
  "toUpperCase_char c =
     (case map_of (zip lower_letters upper_letters) c of Some u \<Rightarrow> u | None \<Rightarrow> c)"

definition toLowerCase :: "string \<Rightarrow> string" where
  "toLowerCase s = map toLowerCase_char s"

definition toUpperCase :: "string \<Rightarrow> string" where
  "toUpperCase s = map toUpperCase_char s"

text \<open>\<^verbatim>\<open>s.startsWith(t)\<close> is \<^term>\<open>prefix t s\<close>.\<close>

subsection \<open>Errors\<close>

text \<open>
  Every \<^verbatim>\<open>throw new Error(...)\<close> of the tools is a constructor; the \<^verbatim>\<open>catch\<close> of
  each tool turns it into \<^verbatim>\<open>{success: false, error: message}\<close>.
  \<^item> \<open>AccessDenied r\<close>: "Access denied: Path is in restricted directory: r"
  \<^item> \<open>ExtensionNotAllowed e\<close>: "File type not allowed: e. Allowed types: ..."
  \<^item> \<open>CategoryDisabled c\<close>: "Image files / .NET files / Binary files are disabled in
    plugin configuration"
  \<^item> \<open>NotAFile\<close>: "Path is not a file"; \<open>NotADirectory\<close>: "Path is not a directory"
  \<^item> \<open>TooLarge size max\<close>: "File too large: size bytes (max: max)"
  \<^item> \<open>FsFailure\<close>: \<^verbatim>\<open>fs.stat\<close>, \<^verbatim>\<open>fs.readdir\<close> or \<^verbatim>\<open>fs.readFile\<close> threw
  \<^item> \<open>InvalidPattern\<close>: \<^verbatim>\<open>new RegExp\<close> threw
\<close>

datatype category = Image | DotNet | Binary

datatype error =
    AccessDenied string
  | ExtensionNotAllowed string
  | CategoryDisabled category
  | NotAFile
  | NotADirectory
  | TooLarge nat nat
  | FsFailure
  | InvalidPattern

subsection \<open>Paths (\<^verbatim>\<open>path.posix\<close>)\<close>

text \<open>Splitting at every separator, as \<^verbatim>\<open>split("/")\<close> does: empty pieces are kept.\<close>

fun split_path :: "string \<Rightarrow> string list" where
  "split_path [] = [[]]"
| "split_path (c # cs) =
     (if c = CHR ''/'' then [] # split_path cs
      else (case split_path cs of [] \<Rightarrow> [[c]] | s # ss \<Rightarrow> (c # s) # ss))"

text \<open>
  \<^verbatim>\<open>normalizeString\<close> for an absolute path: empty and \<^verbatim>\<open>.\<close> segments are dropped,
  \<^verbatim>\<open>..\<close> removes the segment before it (and is dropped at the root). The
  accumulator holds the segments kept so far, last first.
\<close>

fun normalize_segments :: "string list \<Rightarrow> string list \<Rightarrow> string list" where
  "normalize_segments acc [] = rev acc"
| "normalize_segments acc (s # ss) =
     (if s = [] \<or> s = ''.'' then normalize_segments acc ss
      else if s = ''..'' then normalize_segments (case acc of [] \<Rightarrow> [] | _ # r \<Rightarrow> r) ss
      else normalize_segments (s # acc) ss)"

definition render_path :: "string list \<Rightarrow> string" where
  "render_path segs = (if segs = [] then ''/'' else concat (map (\<lambda>s. CHR ''/'' # s) segs))"

definition isAbsolute :: "string \<Rightarrow> bool" where
  "isAbsolute p = (case p of [] \<Rightarrow> False | c # _ \<Rightarrow> c = CHR ''/'')"

text \<open>
  \<^verbatim>\<open>path.resolve(p)\<close> with one argument: a path that is not absolute is appended
  to the working directory \<open>wd\<close> (itself absolute); the result is normalised
  and has no trailing separator. Symbolic links are not looked at.
\<close>

definition path_resolve :: "string \<Rightarrow> string \<Rightarrow> string" where
  "path_resolve wd p =
     render_path (normalize_segments []
       (split_path (if isAbsolute p then p else wd @ ''/'' @ p)))"

text \<open>\<^verbatim>\<open>path.join(dir, name)\<close> for an absolute \<open>dir\<close>.\<close>

definition path_join :: "string \<Rightarrow> string \<Rightarrow> string" where
  "path_join dir name = render_path (normalize_segments [] (split_path (dir @ ''/'' @ name)))"

subsection \<open>Path validation\<close>

text \<open>The loop of \<^verbatim>\<open>validatePath\<close>: the first restricted path that matches, if any.\<close>

fun first_restricted :: "string \<Rightarrow> string list \<Rightarrow> string option" where
  "first_restricted normalizedPath [] = None"
| "first_restricted normalizedPath (restrictedPath # rest) =
     (if prefix (toLowerCase restrictedPath) (toLowerCase normalizedPath)
      then Some restrictedPath
      else first_restricted normalizedPath rest)"

definition validatePath :: "string \<Rightarrow> string \<Rightarrow> string list \<Rightarrow> error + string" where
  "validatePath wd filePath restrictedPaths =
     (let normalizedPath = path_resolve wd filePath in
      case first_restricted normalizedPath restrictedPaths of
        Some restrictedPath \<Rightarrow> Inl (AccessDenied restrictedPath)
      | None \<Rightarrow> Inr normalizedPath)"

text \<open>
  The specification's wording of the restricted-prefix test, for comparison with
  \<^const>\<open>validatePath\<close>: equality or nesting decided segment by segment,
  case-insensitively.
\<close>

definition path_segments :: "string \<Rightarrow> string list" where
  "path_segments p = filter (\<lambda>s. s \<noteq> []) (split_path p)"

definition spec_nested_under :: "string \<Rightarrow> string \<Rightarrow> bool" where
  "spec_nested_under restrictedPrefix canonical =
     prefix (path_segments (toLowerCase restrictedPrefix)) (path_segments (toLowerCase canonical))"


subsection \<open>File names\<close>

text \<open>
  \<^verbatim>\<open>path.basename\<close> and \<^verbatim>\<open>path.dirname\<close>, on the normalised absolute paths the
  tools pass them; \<^verbatim>\<open>path.extname\<close>: the text from the last dot of the last
  segment, empty when that segment has no dot, starts with its only dot, or is
  \<^verbatim>\<open>..\<close>.
\<close>

definition path_basename :: "string \<Rightarrow> string" where
  "path_basename p = (case rev (path_segments p) of [] \<Rightarrow> [] | b # _ \<Rightarrow> b)"

definition path_dirname :: "string \<Rightarrow> string" where
  "path_dirname p = render_path (butlast (path_segments p))"

definition path_extname :: "string \<Rightarrow> string" where
  "path_extname p =
     (let base = path_basename p;
          upto_dot = rev (dropWhile (\<lambda>c. c \<noteq> CHR ''.'') (rev base))
      in if base = ''..'' \<or> length upto_dot \<le> 1 then []
         else drop (length upto_dot - 1) base)"

subsection \<open>The environment: file system, MIME table, configuration\<close>

datatype kind = File | Directory | Other

record stats =
  st_kind :: kind
  st_size :: nat
  st_birthtime :: nat
  st_mtime :: nat
  st_atime :: nat

definition isFile :: "stats \<Rightarrow> bool" where
  "isFile st = (st_kind st = File)"

definition isDirectory :: "stats \<Rightarrow> bool" where
  "isDirectory st = (st_kind st = Directory)"

record dirent =
  d_name :: string
  d_kind :: kind

text \<open>
  What the tools read from outside: the working directory, \<^verbatim>\<open>fs.stat\<close>,
  \<^verbatim>\<open>fs.readdir\<close> with file types, \<^verbatim>\<open>fs.readFile\<close> (path, then encoding) and
  \<^verbatim>\<open>mimeTypes.lookup\<close>. \<open>None\<close> is a thrown error for the three file-system
  calls and \<^verbatim>\<open>false\<close> for the lookup. The last field is the regular-expression
  engine on the sources that the fragment written out below does not cover:
  \<open>regexp_other e source name\<close> is the value of
  \<^verbatim>\<open>new RegExp(source, "i").test(name)\<close>, \<open>None\<close> when the constructor throws.
\<close>

record env =
  cwd :: string
  fs_stat :: "string \<Rightarrow> stats option"
  fs_readdir :: "string \<Rightarrow> dirent list option"
  fs_readFile :: "string \<Rightarrow> string \<Rightarrow> string option"
  mime_lookup :: "string \<Rightarrow> string option"
  regexp_other :: "string \<Rightarrow> string \<Rightarrow> bool option"

text \<open>The value of \<^verbatim>\<open>getConfig\<close>.\<close>

record config =
  allowedExtensions :: "string list"
  restrictedPaths :: "string list"
  maxFileSize :: nat
  enableImageFiles :: bool
  enableDotNetFiles :: bool
  enableBinaryFiles :: bool

text \<open>\<^verbatim>\<open>mimeTypes.lookup(p) || "unknown"\<close>\<close>

definition mime_or_unknown :: "env \<Rightarrow> string \<Rightarrow> string" where
  "mime_or_unknown e p =
     (case mime_lookup e p of None \<Rightarrow> ''unknown'' | Some m \<Rightarrow> if m = [] then ''unknown'' else m)"

subsection \<open>Extension validation\<close>

definition imageExtensions :: "string list" where
  "imageExtensions = [''.jpg'', ''.jpeg'', ''.png'', ''.gif'', ''.bmp'', ''.tiff'', ''.tif'',
     ''.webp'', ''.svg'', ''.ico'', ''.heic'', ''.heif'', ''.raw'', ''.cr2'', ''.nef'', ''.arw'', ''.dng'']"

definition dotnetExtensions :: "string list" where
  "dotnetExtensions = [''.cs'', ''.vb'', ''.fs'', ''.csproj'', ''.vbproj'', ''.fsproj'', ''.sln'',
     ''.razor'', ''.cshtml'', ''.vbhtml'', ''.aspx'', ''.ascx'', ''.asmx'']"

definition binaryExtensions :: "string list" where
  "binaryExtensions = [''.dll'', ''.exe'', ''.msi'', ''.nupkg'']"

definition validateExtension :: "string \<Rightarrow> string list \<Rightarrow> config \<Rightarrow> error + bool" where
  "validateExtension filePath allowed cfg =
     (let ext = toLowerCase (path_extname filePath) in
      if ext \<notin> set allowed then Inl (ExtensionNotAllowed ext)
      else if ext \<in> set imageExtensions \<and> \<not> enableImageFiles cfg then Inl (CategoryDisabled Image)
      else if ext \<in> set dotnetExtensions \<and> \<not> enableDotNetFiles cfg then Inl (CategoryDisabled DotNet)
      else if ext \<in> set binaryExtensions \<and> \<not> enableBinaryFiles cfg then Inl (CategoryDisabled Binary)
      else Inr True)"

subsection \<open>Size formatting\<close>

fun show_nat :: "nat \<Rightarrow> string" where
  "show_nat n =
     (if n < 10 then [''0123456789'' ! n] else show_nat (n div 10) @ [''0123456789'' ! (n mod 10)])"

declare show_nat.simps [simp del]

text \<open>
  The loop of \<^verbatim>\<open>formatFileSize\<close>. The running value \<^verbatim>\<open>size\<close> is
  \<open>bytes / divisor\<close> with \<open>divisor = 1024 ^ unitIndex\<close> (division by 1024 is exact
  on the doubles involved), so \<^verbatim>\<open>size >= 1024\<close> is \<open>1024 * divisor \<le> bytes\<close>.
\<close>

function formatFileSize_loop :: "nat \<Rightarrow> nat \<Rightarrow> nat \<Rightarrow> nat \<times> nat" where
  "formatFileSize_loop bytes divisor unitIndex =
     (if 1024 * divisor \<le> bytes \<and> unitIndex < 3
      then formatFileSize_loop bytes (divisor * 1024) (unitIndex + 1)
      else (divisor, unitIndex))"
  by pat_completeness auto
termination
  by (relation "measure (\<lambda>(bytes, divisor, unitIndex). 3 - unitIndex)") auto

declare formatFileSize_loop.simps [simp del]

text \<open>
  \<^verbatim>\<open>size.toFixed(1)\<close>: the number of tenths nearest to \<open>bytes / divisor\<close>, the
  larger one on a tie.
\<close>

definition toFixed1 :: "nat \<Rightarrow> nat \<Rightarrow> string" where
  "toFixed1 bytes divisor =
     (let tenths = (20 * bytes + divisor) div (2 * divisor)
      in show_nat (tenths div 10) @ ''.'' @ show_nat (tenths mod 10))"

definition units :: "string list" where
  "units = [''B'', ''KB'', ''MB'', ''GB'']"

definition formatFileSize :: "nat \<Rightarrow> string" where
  "formatFileSize bytes =
     (case formatFileSize_loop bytes 1 0 of
        (divisor, unitIndex) \<Rightarrow> toFixed1 bytes divisor @ '' '' @ units ! unitIndex)"

subsection \<open>\<^verbatim>\<open>read_file\<close>\<close>

text \<open>
  Each tool implementation is a function of its parameters, the defaults of the
  optional ones (\<^verbatim>\<open>encoding\<close>: \<^verbatim>\<open>utf8\<close>; \<^verbatim>\<open>include_hidden\<close> and \<^verbatim>\<open>recursive\<close>:
  \<^verbatim>\<open>false\<close>) being filled in by the parameter schema before it runs. \<open>Inl\<close> is
  the answer \<^verbatim>\<open>{success: false, error}\<close>, \<open>Inr\<close> the answer with \<^verbatim>\<open>success: true\<close>.
\<close>

record read_result =
  rf_isBinary :: bool
  rf_content :: string
  rf_path :: string
  rf_size :: nat
  rf_sizeFormatted :: string
  rf_encoding :: "string option"
  rf_mimeType :: string
  rf_lastModified :: nat
  rf_fileType :: "string option"
  rf_message :: "string option"

text \<open>Binary file extensions that return metadata instead of content.\<close>

definition read_binaryExtensions :: "string list" where
  "read_binaryExtensions = [''.jpg'', ''.jpeg'', ''.png'', ''.gif'', ''.bmp'', ''.tiff'', ''.tif'',
     ''.webp'', ''.ico'', ''.heic'', ''.heif'', ''.raw'', ''.cr2'', ''.nef'',
     ''.arw'', ''.dng'', ''.dll'', ''.exe'', ''.msi'', ''.nupkg'']"

definition isBinaryFile :: "string \<Rightarrow> string \<Rightarrow> bool" where
  "isBinaryFile ext mimeType =
     (ext \<in> set read_binaryExtensions \<or> prefix ''image/'' mimeType \<or> prefix ''application/'' mimeType)"

definition binary_placeholder :: string where
  "binary_placeholder = ''[Binary file - content not readable as text]''"

definition read_file :: "env \<Rightarrow> config \<Rightarrow> string \<Rightarrow> string \<Rightarrow> error + read_result" where
  "read_file e cfg file_path encoding =
     (case validatePath (cwd e) file_path (restrictedPaths cfg) of
        Inl err \<Rightarrow> Inl err
      | Inr validatedPath \<Rightarrow>
     (case validateExtension validatedPath (allowedExtensions cfg) cfg of
        Inl err \<Rightarrow> Inl err
      | Inr _ \<Rightarrow>
     (case fs_stat e validatedPath of
        None \<Rightarrow> Inl FsFailure
      | Some st \<Rightarrow>
        if \<not> isFile st then Inl NotAFile
        else if st_size st > maxFileSize cfg then Inl (TooLarge (st_size st) (maxFileSize cfg))
        else
          (let ext = toLowerCase (path_extname validatedPath);
               mimeType = mime_or_unknown e validatedPath
           in if isBinaryFile ext mimeType then
                Inr \<lparr>rf_isBinary = True,
                     rf_content = binary_placeholder,
                     rf_path = validatedPath,
                     rf_size = st_size st,
                     rf_sizeFormatted = formatFileSize (st_size st),
                     rf_encoding = None,
                     rf_mimeType = mimeType,
                     rf_lastModified = st_mtime st,
                     rf_fileType = Some ext,
                     rf_message = Some (''This is a binary file ('' @ ext @
                       ''). Only metadata is shown. Use get_file_info for detailed information.'')\<rparr>
              else
                (case fs_readFile e validatedPath encoding of
                   None \<Rightarrow> Inl FsFailure
                 | Some content \<Rightarrow>
                   Inr \<lparr>rf_isBinary = False,
                        rf_content = content,
                        rf_path = validatedPath,
                        rf_size = st_size st,
                        rf_sizeFormatted = formatFileSize (st_size st),
                        rf_encoding = Some encoding,
                        rf_mimeType = mimeType,
                        rf_lastModified = st_mtime st,
                        rf_fileType = None,
                        rf_message = None\<rparr>)))))"


subsection \<open>\<^verbatim>\<open>list_directory\<close>\<close>

record list_item =
  li_name :: string
  li_path :: string
  li_type :: string
  li_size :: nat
  li_sizeFormatted :: string
  li_lastModified :: nat
  li_extension :: "string option"
  li_mimeType :: "string option"

record list_result =
  ld_path :: string
  ld_items :: "list_item list"
  ld_count :: nat

text \<open>
  A \<^verbatim>\<open>for\<close> loop whose body may throw: the state reached is kept (the array the
  body pushes to is shared), and the first error ends the loop.
\<close>

fun for_each :: "('a \<Rightarrow> 's \<Rightarrow> 's \<times> error option) \<Rightarrow> 'a list \<Rightarrow> 's \<Rightarrow> 's \<times> error option" where
  "for_each body [] s = (s, None)"
| "for_each body (x # xs) s =
     (case body x s of
        (s', None) \<Rightarrow> for_each body xs s'
      | (s', Some err) \<Rightarrow> (s', Some err))"

lemma for_each_cong [fundef_cong]:
  "xs = ys \<Longrightarrow> s = t \<Longrightarrow> (\<And>x u. x \<in> set ys \<Longrightarrow> body x u = body' x u) \<Longrightarrow>
     for_each body xs s = for_each body' ys t"
proof (induction ys arbitrary: xs s t)
  case Nil
  then show ?case by simp
next
  case (Cons y ys)
  have "for_each body ys u = for_each body' ys u" for u
    by (rule Cons.IH) (simp_all add: Cons.prems(3))
  then show ?case using Cons.prems by (simp split: prod.splits option.splits)
qed

definition list_entry :: "env \<Rightarrow> bool \<Rightarrow> string \<Rightarrow> dirent \<Rightarrow> list_item list \<Rightarrow> list_item list \<times> error option" where
  "list_entry e include_hidden validatedPath entry items =
     (if \<not> include_hidden \<and> prefix ''.'' (d_name entry) then (items, None)
      else
        (let itemPath = path_join validatedPath (d_name entry) in
         case fs_stat e itemPath of
           None \<Rightarrow> (items, Some FsFailure)
         | Some itemStats \<Rightarrow>
             (items @
               [\<lparr>li_name = d_name entry,
                 li_path = itemPath,
                 li_type = (if d_kind entry = Directory then ''directory'' else ''file''),
                 li_size = st_size itemStats,
                 li_sizeFormatted = formatFileSize (st_size itemStats),
                 li_lastModified = st_mtime itemStats,
                 li_extension = (if d_kind entry = File then Some (path_extname (d_name entry)) else None),
                 li_mimeType = (if d_kind entry = File then Some (mime_or_unknown e (d_name entry)) else None)\<rparr>],
              None)))"

definition list_directory :: "env \<Rightarrow> config \<Rightarrow> string \<Rightarrow> bool \<Rightarrow> error + list_result" where
  "list_directory e cfg dir_path include_hidden =
     (case validatePath (cwd e) dir_path (restrictedPaths cfg) of
        Inl err \<Rightarrow> Inl err
      | Inr validatedPath \<Rightarrow>
     (case fs_stat e validatedPath of
        None \<Rightarrow> Inl FsFailure
      | Some st \<Rightarrow>
        if \<not> isDirectory st then Inl NotADirectory
        else
          (case fs_readdir e validatedPath of
             None \<Rightarrow> Inl FsFailure
           | Some entries \<Rightarrow>
               (case for_each (list_entry e include_hidden validatedPath) entries [] of
                  (items, Some err) \<Rightarrow> Inl err
                | (items, None) \<Rightarrow>
                    Inr \<lparr>ld_path = validatedPath, ld_items = items, ld_count = length items\<rparr>))))"

subsection \<open>\<^verbatim>\<open>get_file_info\<close>\<close>

record file_info =
  fi_path :: string
  fi_name :: string
  fi_directory :: string
  fi_extension :: string
  fi_type :: string
  fi_size :: nat
  fi_sizeFormatted :: string
  fi_created :: nat
  fi_lastModified :: nat
  fi_lastAccessed :: nat
  fi_mimeType :: "string option"
  fi_readable :: bool
  fi_writable :: bool
  fi_additionalInfo :: "(string \<times> string) list"

text \<open>The keys set on \<^verbatim>\<open>additionalInfo\<close> for a regular file, in the order they are set.\<close>

definition additionalInfo :: "string \<Rightarrow> (string \<times> string) list" where
  "additionalInfo ext =
     (if ext \<in> set [''.cs'', ''.vb'', ''.fs'', ''.csproj'', ''.vbproj'', ''.fsproj'', ''.sln'', ''.config'']
      then [(''fileCategory'', ''.NET Development File''), (''framework'', ''Microsoft .NET'')] @
        (if ext \<in> set [''.cs'', ''.vb'', ''.fs'']
         then [(''fileType'', ''Source Code''),
               (''language'', if ext = ''.cs'' then ''C#'' else if ext = ''.vb'' then ''VB.NET'' else ''F#'')]
         else if ext \<in> set [''.csproj'', ''.vbproj'', ''.fsproj'']
         then [(''fileType'', ''Project File''), (''description'', ''MSBuild project definition'')]
         else if ext = ''.sln''
         then [(''fileType'', ''Solution File''), (''description'', ''Visual Studio solution'')]
         else [])
      else []) @
     (if ext \<in> set [''.jpg'', ''.jpeg'', ''.png'', ''.gif'', ''.bmp'', ''.tiff'', ''.tif'', ''.webp'', ''.svg'', ''.ico'']
      then (let imageFormat = toUpperCase (remove1 (CHR ''.'') ext) in
            [(''fileCategory'', ''Image File''),
             (''imageFormat'', imageFormat),
             (''description'', imageFormat @ '' image file''),
             (''note'', ''Use image processing tools to get dimensions and detailed metadata'')])
      else []) @
     (if ext \<in> set [''.dll'', ''.exe'', ''.msi'']
      then [(''fileCategory'', ''Binary/Executable''),
            (''warning'', ''Binary file - content cannot be read as text'')] @
        (if ext = ''.dll''
         then [(''fileType'', ''Dynamic Link Library''), (''description'', ''.NET assembly or Windows library'')]
         else if ext = ''.exe''
         then [(''fileType'', ''Executable''), (''description'', ''Windows application or .NET assembly'')]
         else [(''fileType'', ''Installer Package''), (''description'', ''Windows Installer package'')])
      else [])"

definition get_file_info :: "env \<Rightarrow> config \<Rightarrow> string \<Rightarrow> error + file_info" where
  "get_file_info e cfg file_path =
     (case validatePath (cwd e) file_path (restrictedPaths cfg) of
        Inl err \<Rightarrow> Inl err
      | Inr validatedPath \<Rightarrow>
     (case fs_stat e validatedPath of
        None \<Rightarrow> Inl FsFailure
      | Some st \<Rightarrow>
          (let ext = toLowerCase (path_extname validatedPath) in
           Inr \<lparr>fi_path = validatedPath,
                fi_name = path_basename validatedPath,
                fi_directory = path_dirname validatedPath,
                fi_extension = ext,
                fi_type = (if isFile st then ''file'' else if isDirectory st then ''directory'' else ''other''),
                fi_size = st_size st,
                fi_sizeFormatted = formatFileSize (st_size st),
                fi_created = st_birthtime st,
                fi_lastModified = st_mtime st,
                fi_lastAccessed = st_atime st,
                fi_mimeType = (if isFile st then Some (mime_or_unknown e validatedPath) else None),
                fi_readable = True,
                fi_writable = False,
                fi_additionalInfo = (if isFile st then additionalInfo ext else [])\<rparr>)))"


subsection \<open>Pattern matching\<close>

text \<open>
  \<^verbatim>\<open>matchesPattern\<close> builds the source
  \<^verbatim>\<open>"^" + pattern.replace(/\*/g, ".*").replace(/\?/g, ".") + "$"\<close> and hands it to
  \<^verbatim>\<open>new RegExp(source, "i")\<close>.
\<close>

definition replace_all :: "char \<Rightarrow> string \<Rightarrow> string \<Rightarrow> string" where
  "replace_all c t s = concat (map (\<lambda>x. if x = c then t else [x]) s)"

definition regex_source :: "string \<Rightarrow> string" where
  "regex_source pattern =
     ''^'' @ replace_all (CHR ''?'') ''.'' (replace_all (CHR ''*'') ''.*'' pattern) @ ''$''"

text \<open>
  The regular expressions written out here: a disjunction of alternatives, each a
  sequence of pattern characters, \<^verbatim>\<open>.\<close> and \<^verbatim>\<open>.*\<close>, with \<^verbatim>\<open>^\<close> before the
  first alternative and \<^verbatim>\<open>$\<close> after the last. A source with any other syntax
  character (\<^verbatim>\<open>^ $ \ . * + ? ( ) [ ] { } |\<close>) elsewhere is left to
  \<^const>\<open>regexp_other\<close>.
\<close>

datatype re_item = Lit char | AnyChar | AnyStar

definition syntax_character :: "char \<Rightarrow> bool" where
  "syntax_character c = (c \<in> set ''^$.*+?()[]{}|'' \<or> c = CHR 0x5C)"

definition line_terminator :: "char \<Rightarrow> bool" where
  "line_terminator c = (c = CHR 0x0A \<or> c = CHR 0x0D)"

text \<open>
  With the flag \<^verbatim>\<open>i\<close> two characters match when \<^verbatim>\<open>Canonicalize\<close> gives the same
  code unit for both: the upper-case form of the character when that is one code
  unit, the character itself otherwise. The upper-case forms of \<open>0xB5\<close> and
  \<open>0xFF\<close> are code units above 255 that no other character of the model is
  mapped to, and that of \<open>0xDF\<close> is two code units: each of the three matches
  itself only, as it does with the table below.
\<close>

definition canonicalize :: "char \<Rightarrow> char" where
  "canonicalize c =
     (case map_of (zip lower_letters upper_letters) c of Some u \<Rightarrow> u | None \<Rightarrow> c)"

definition same_letter :: "char \<Rightarrow> char \<Rightarrow> bool" where
  "same_letter a b = (canonicalize a = canonicalize b)"

fun split_alternatives :: "string \<Rightarrow> string list" where
  "split_alternatives [] = [[]]"
| "split_alternatives (c # cs) =
     (if c = CHR ''|'' then [] # split_alternatives cs
      else (case split_alternatives cs of [] \<Rightarrow> [[c]] | s # ss \<Rightarrow> (c # s) # ss))"

fun parse_items :: "string \<Rightarrow> re_item list option" where
  "parse_items [] = Some []"
| "parse_items (c # cs) =
     (if c = CHR ''.'' then
        (case cs of
           [] \<Rightarrow> Some [AnyChar]
         | d # ds \<Rightarrow>
             if d = CHR ''*'' then map_option (\<lambda>r. AnyStar # r) (parse_items ds)
             else map_option (\<lambda>r. AnyChar # r) (parse_items cs))
      else if syntax_character c then None
      else map_option (\<lambda>r. Lit c # r) (parse_items cs))"

definition regexp_compile :: "string \<Rightarrow> re_item list list option" where
  "regexp_compile source =
     (case source of
        [] \<Rightarrow> None
      | c # rest \<Rightarrow>
          if c = CHR ''^'' \<and> rest \<noteq> [] \<and> last rest = CHR ''$''
          then those (map parse_items (split_alternatives (butlast rest)))
          else None)"

text \<open>
  \<open>match_items items anchored_end s\<close>: the items match a prefix of \<open>s\<close>, all of
  \<open>s\<close> when the alternative ends in \<^verbatim>\<open>$\<close>. A dot matches any character but a
  line terminator.
\<close>

fun match_items :: "re_item list \<Rightarrow> bool \<Rightarrow> string \<Rightarrow> bool" where
  "match_items [] anchored_end s = (if anchored_end then s = [] else True)"
| "match_items (Lit c # items) anchored_end [] = False"
| "match_items (Lit c # items) anchored_end (x # xs) =
     (same_letter c x \<and> match_items items anchored_end xs)"
| "match_items (AnyChar # items) anchored_end [] = False"
| "match_items (AnyChar # items) anchored_end (x # xs) =
     (\<not> line_terminator x \<and> match_items items anchored_end xs)"
| "match_items (AnyStar # items) anchored_end [] = match_items items anchored_end []"
| "match_items (AnyStar # items) anchored_end (x # xs) =
     (match_items items anchored_end (x # xs) \<or>
      (\<not> line_terminator x \<and> match_items (AnyStar # items) anchored_end xs))"

text \<open>
  \<^verbatim>\<open>test\<close> looks for a match starting anywhere; only the first alternative is
  tied to the start of the name and only the last to its end.
\<close>

definition match_alternative :: "bool \<Rightarrow> bool \<Rightarrow> re_item list \<Rightarrow> string \<Rightarrow> bool" where
  "match_alternative anchored_start anchored_end items name =
     (if anchored_start then match_items items anchored_end name
      else list_ex (match_items items anchored_end) (suffixes name))"

fun test_alternatives :: "bool \<Rightarrow> re_item list list \<Rightarrow> string \<Rightarrow> bool" where
  "test_alternatives is_first [] name = False"
| "test_alternatives is_first [a] name = match_alternative is_first True a name"
| "test_alternatives is_first (a # b # rest) name =
     (match_alternative is_first False a name \<or> test_alternatives False (b # rest) name)"

definition matchesPattern :: "env \<Rightarrow> string \<Rightarrow> string \<Rightarrow> bool option" where
  "matchesPattern e filename pattern =
     (case regexp_compile (regex_source pattern) of
        Some alternatives \<Rightarrow> Some (test_alternatives True alternatives filename)
      | None \<Rightarrow> regexp_other e (regex_source pattern) filename)"

text \<open>
  The specification's wording of the matcher, for comparison with
  \<^const>\<open>matchesPattern\<close>: \<^verbatim>\<open>*\<close> is zero or more characters, \<^verbatim>\<open>?\<close> exactly one,
  every other character matches itself, case-insensitively, and the whole name is
  matched.
\<close>

fun spec_matches :: "string \<Rightarrow> string \<Rightarrow> bool" where
  "spec_matches [] name = (name = [])"
| "spec_matches (p # ps) [] = (p = CHR ''*'' \<and> spec_matches ps [])"
| "spec_matches (p # ps) (x # xs) =
     (if p = CHR ''*'' then spec_matches ps (x # xs) \<or> spec_matches (p # ps) xs
      else if p = CHR ''?'' then spec_matches ps xs
      else same_letter p x \<and> spec_matches ps xs)"

subsection \<open>\<^verbatim>\<open>search_files\<close>\<close>

record search_item =
  sr_name :: string
  sr_path :: string
  sr_directory :: string
  sr_size :: nat
  sr_sizeFormatted :: string
  sr_lastModified :: nat
  sr_extension :: string
  sr_mimeType :: string

record search_result =
  ss_searchPath :: string
  ss_pattern :: string
  ss_recursive :: bool
  ss_results :: "search_item list"
  ss_count :: nat

text \<open>
  \<^verbatim>\<open>searchInDirectory\<close> pushes to the shared array \<^verbatim>\<open>results\<close>: the model takes the
  array and returns it with the error thrown, if any. The \<^verbatim>\<open>try\<close> around the
  recursive call drops the error and keeps what the call pushed.
\<close>

function searchInDirectory ::
  "env \<Rightarrow> string \<Rightarrow> bool \<Rightarrow> string \<Rightarrow> nat \<Rightarrow> search_item list \<Rightarrow> search_item list \<times> error option" where
  "searchInDirectory e pattern recursive dirPath depth results =
     (if depth > 10 then (results, None)
      else
        (case fs_readdir e dirPath of
           None \<Rightarrow> (results, Some FsFailure)
         | Some entries \<Rightarrow>
             for_each
               (\<lambda>entry results.
                  let entryPath = path_join dirPath (d_name entry) in
                  if d_kind entry = File then
                    (case matchesPattern e (d_name entry) pattern of
                       None \<Rightarrow> (results, Some InvalidPattern)
                     | Some False \<Rightarrow> (results, None)
                     | Some True \<Rightarrow>
                         (case fs_stat e entryPath of
                            None \<Rightarrow> (results, Some FsFailure)
                          | Some st \<Rightarrow>
                              (results @
                                [\<lparr>sr_name = d_name entry,
                                  sr_path = entryPath,
                                  sr_directory = path_dirname entryPath,
                                  sr_size = st_size st,
                                  sr_sizeFormatted = formatFileSize (st_size st),
                                  sr_lastModified = st_mtime st,
                                  sr_extension = path_extname (d_name entry),
                                  sr_mimeType = mime_or_unknown e entryPath\<rparr>],
                               None)))
                  else if d_kind entry = Directory \<and> recursive then
                    (fst (searchInDirectory e pattern recursive entryPath (depth + 1) results), None)
                  else (results, None))
               entries results))"
  by pat_completeness auto
termination
  by (relation "measure (\<lambda>(e, pattern, recursive, dirPath, depth, results). 11 - depth)") auto

declare searchInDirectory.simps [simp del]

definition search_files :: "env \<Rightarrow> config \<Rightarrow> string \<Rightarrow> string \<Rightarrow> bool \<Rightarrow> error + search_result" where
  "search_files e cfg search_path pattern recursive =
     (case validatePath (cwd e) search_path (restrictedPaths cfg) of
        Inl err \<Rightarrow> Inl err
      | Inr validatedPath \<Rightarrow>
          (case searchInDirectory e pattern recursive validatedPath 0 [] of
             (results, Some err) \<Rightarrow> Inl err
           | (results, None) \<Rightarrow>
               Inr \<lparr>ss_searchPath = validatedPath,
                    ss_pattern = pattern,
                    ss_recursive = recursive,
                    ss_results = results,
                    ss_count = length results\<rparr>))"


subsection \<open>The specification's canonical form, and example file systems\<close>

text \<open>
  The specification's canonical form resolves symbolic links as well: it is
  \<^const>\<open>path_resolve\<close> followed by the file system's link resolution, here a
  function \<open>realpath\<close>.
\<close>

definition spec_canonical :: "(string \<Rightarrow> string) \<Rightarrow> string \<Rightarrow> string \<Rightarrow> string" where
  "spec_canonical realpath wd p = realpath (path_resolve wd p)"

definition ex_stats :: "kind \<Rightarrow> nat \<Rightarrow> stats" where
  "ex_stats k n = \<lparr>st_kind = k, st_size = n, st_birthtime = 0, st_mtime = 0, st_atime = 0\<rparr>"

definition ex_cfg :: config where
  "ex_cfg = \<lparr>allowedExtensions = [''.txt'', ''.json'', ''.png''],
     restrictedPaths = [''/system''],
     maxFileSize = 1048576,
     enableImageFiles = True,
     enableDotNetFiles = True,
     enableBinaryFiles = True\<rparr>"

text \<open>
  A file system in which the directory \<^verbatim>\<open>/tmp/link\<close> is a symbolic link to
  \<^verbatim>\<open>/system\<close>, which holds the regular file \<^verbatim>\<open>x.txt\<close>.
\<close>

definition link_realpath :: "string \<Rightarrow> string" where
  "link_realpath p = (if prefix ''/tmp/link/'' p then ''/system/'' @ drop 10 p else p)"

definition link_env :: env where
  "link_env =
     \<lparr>cwd = ''/home/user'',
      fs_stat = (\<lambda>p. if link_realpath p = ''/system/x.txt'' then Some (ex_stats File 6) else None),
      fs_readdir = (\<lambda>p. None),
      fs_readFile = (\<lambda>p encoding. if link_realpath p = ''/system/x.txt'' then Some ''secret'' else None),
      mime_lookup = (\<lambda>p. Some ''text/plain''),
      regexp_other = (\<lambda>source name. None)\<rparr>"

text \<open>
  A small file system: the directory \<^verbatim>\<open>/data\<close> with five regular files and two
  subdirectories, of which \<^verbatim>\<open>locked\<close> cannot be enumerated. \<^verbatim>\<open>notes.txt\<close> has
  exactly the size limit of \<^const>\<open>ex_cfg\<close>, \<^verbatim>\<open>big.txt\<close> one byte more.
\<close>

definition data_stat_table :: "(string \<times> stats) list" where
  "data_stat_table =
     [(''/data'', ex_stats Directory 4096),
      (''/data/a.json'', ex_stats File 9),
      (''/data/notes.txt'', ex_stats File 1048576),
      (''/data/big.txt'', ex_stats File 1048577),
      (''/data/pic.png'', ex_stats File 7),
      (''/data/prog.exe'', ex_stats File 2),
      (''/data/locked'', ex_stats Directory 4096),
      (''/data/sub'', ex_stats Directory 4096),
      (''/data/sub/deep.txt'', ex_stats File 4)]"

definition data_dir_table :: "(string \<times> dirent list) list" where
  "data_dir_table =
     [(''/data'',
        [\<lparr>d_name = ''a.json'', d_kind = File\<rparr>,
         \<lparr>d_name = ''notes.txt'', d_kind = File\<rparr>,
         \<lparr>d_name = ''big.txt'', d_kind = File\<rparr>,
         \<lparr>d_name = ''pic.png'', d_kind = File\<rparr>,
         \<lparr>d_name = ''prog.exe'', d_kind = File\<rparr>,
         \<lparr>d_name = ''locked'', d_kind = Directory\<rparr>,
         \<lparr>d_name = ''sub'', d_kind = Directory\<rparr>]),
      (''/data/sub'', [\<lparr>d_name = ''deep.txt'', d_kind = File\<rparr>])]"

definition data_content_table :: "(string \<times> string) list" where
  "data_content_table =
     [(''/data/a.json'', ''[1, 2, 3]''),
      (''/data/notes.txt'', replicate 1048576 (CHR ''n'')),
      (''/data/big.txt'', replicate 1048577 (CHR ''b'')),
      (''/data/pic.png'', ''PNGDATA''),
      (''/data/prog.exe'', ''MZ''),
      (''/data/sub/deep.txt'', ''deep'')]"

definition ex_mime :: "string \<Rightarrow> string option" where
  "ex_mime p =
     map_of [(''.json'', ''application/json''), (''.txt'', ''text/plain''),
             (''.png'', ''image/png''), (''.exe'', ''application/x-msdownload'')]
       (toLowerCase (path_extname p))"

definition data_env :: env where
  "data_env =
     \<lparr>cwd = ''/data'',
      fs_stat = map_of data_stat_table,
      fs_readdir = map_of data_dir_table,
      fs_readFile = (\<lambda>p encoding. map_of data_content_table p),
      mime_lookup = ex_mime,
      regexp_other = (\<lambda>source name. None)\<rparr>"

text \<open>
  Two more directories: \<^verbatim>\<open>/d\<close> holds the one regular file \<^verbatim>\<open>.env\<close>; \<^verbatim>\<open>/e\<close> holds
  the regular file \<^verbatim>\<open>prog.exe\<close> and \<^verbatim>\<open>gone\<close>, a symbolic link whose target does
  not exist, so that \<^verbatim>\<open>fs.stat\<close> throws on it.
\<close>

definition hidden_stat_table :: "(string \<times> stats) list" where
  "hidden_stat_table =
     [(''/d'', ex_stats Directory 4096),
      (''/d/.env'', ex_stats File 5),
      (''/e'', ex_stats Directory 4096),
      (''/e/prog.exe'', ex_stats File 2)]"

definition hidden_dir_table :: "(string \<times> dirent list) list" where
  "hidden_dir_table =
     [(''/d'', [\<lparr>d_name = ''.env'', d_kind = File\<rparr>]),
      (''/e'', [\<lparr>d_name = ''prog.exe'', d_kind = File\<rparr>, \<lparr>d_name = ''gone'', d_kind = Other\<rparr>])]"

definition hidden_env :: env where
  "hidden_env =
     \<lparr>cwd = ''/'',
      fs_stat = map_of hidden_stat_table,
      fs_readdir = map_of hidden_dir_table,
      fs_readFile = (\<lambda>p encoding. if p = ''/d/.env'' then Some ''K=v'' else if p = ''/e/prog.exe'' then Some ''MZ'' else None),
      mime_lookup = ex_mime,
      regexp_other = (\<lambda>source name. None)\<rparr>"

subsection \<open>Notions used in the proofs\<close>

text \<open>Segments as \<^const>\<open>normalize_segments\<close> leaves them: non-empty, without a separator.\<close>

definition good_segments :: "string list \<Rightarrow> bool" where
  "good_segments xs = (\<forall>x\<in>set xs. x \<noteq> [] \<and> CHR ''/'' \<notin> set x)"

text \<open>Segments of a normalised path: good, and neither \<^verbatim>\<open>.\<close> nor \<^verbatim>\<open>..\<close>.\<close>

definition clean_segments :: "string list \<Rightarrow> bool" where
  "clean_segments xs = (good_segments xs \<and> ''.'' \<notin> set xs \<and> ''..'' \<notin> set xs)"

text \<open>
  Patterns whose regular expression lies in the fragment written out above, the
  items such a pattern compiles to, and the pattern read with \<^verbatim>\<open>.\<close> as \<^verbatim>\<open>?\<close>.
\<close>

definition fragment_pattern :: "string \<Rightarrow> bool" where
  "fragment_pattern pattern =
     list_all (\<lambda>c. c = CHR ''*'' \<or> c = CHR ''?'' \<or> c = CHR ''.'' \<or> \<not> syntax_character c) pattern"

definition glob_items :: "string \<Rightarrow> re_item list" where
  "glob_items pattern =
     map (\<lambda>c. if c = CHR ''*'' then AnyStar else if c = CHR ''?'' \<or> c = CHR ''.'' then AnyChar else Lit c)
       pattern"

definition dot_as_question :: "string \<Rightarrow> string" where
  "dot_as_question pattern = map (\<lambda>c. if c = CHR ''.'' then CHR ''?'' else c) pattern"

definition regex_body :: "string \<Rightarrow> string" where
  "regex_body pattern = replace_all (CHR ''?'') ''.'' (replace_all (CHR ''*'') ''.*'' pattern)"

text \<open>
  Depth below a search root: the directories reached by descending through
  \<open>n\<close> directory entries, and the paths of the file entries they hold.
\<close>

definition subdirectories :: "env \<Rightarrow> string \<Rightarrow> string list" where
  "subdirectories e d =
     (case fs_readdir e d of
        None \<Rightarrow> []
      | Some entries \<Rightarrow> map (\<lambda>x. path_join d (d_name x)) (filter (\<lambda>x. d_kind x = Directory) entries))"

fun dirs_at_depth :: "env \<Rightarrow> string \<Rightarrow> nat \<Rightarrow> string list" where
  "dirs_at_depth e root 0 = [root]"
| "dirs_at_depth e root (Suc n) = concat (map (subdirectories e) (dirs_at_depth e root n))"

definition files_in :: "env \<Rightarrow> string \<Rightarrow> string list" where
  "files_in e d =
     (case fs_readdir e d of
        None \<Rightarrow> []
      | Some entries \<Rightarrow> map (\<lambda>x. path_join d (d_name x)) (filter (\<lambda>x. d_kind x = File) entries))"

definition files_at_depth :: "env \<Rightarrow> string \<Rightarrow> nat \<Rightarrow> string list" where
  "files_at_depth e root n = concat (map (files_in e) (dirs_at_depth e root n))"

text \<open>
  A chain of fifteen nested directories \<^verbatim>\<open>/r/d/d/.../d\<close>, each directory of the
  chain (the root included) holding one file \<^verbatim>\<open>f.txt\<close>.
\<close>

definition chain_depth :: "string \<Rightarrow> nat" where
  "chain_depth p = length (path_segments p) - 1"

definition chain_env :: env where
  "chain_env =
     \<lparr>cwd = ''/'',
      fs_stat = (\<lambda>p. Some (ex_stats (if path_basename p = ''f.txt'' then File else Directory) (chain_depth p))),
      fs_readdir = (\<lambda>p.
        if chain_depth p < 15
        then Some [\<lparr>d_name = ''f.txt'', d_kind = File\<rparr>, \<lparr>d_name = ''d'', d_kind = Directory\<rparr>]
        else Some [\<lparr>d_name = ''f.txt'', d_kind = File\<rparr>]),
      fs_readFile = (\<lambda>p encoding. Some ''x''),
      mime_lookup = ex_mime,
      regexp_other = (\<lambda>source name. None)\<rparr>"

text \<open>Every item is a file entry of a directory at most ten levels below the root.\<close>

definition within_ceiling :: "env \<Rightarrow> string \<Rightarrow> search_item list \<Rightarrow> bool" where
  "within_ceiling e root items =
     (\<forall>item\<in>set items. \<exists>n\<le>10. sr_path item \<in> set (files_at_depth e root n))"

text \<open>The environment in which the directory \<open>d\<close> is empty.\<close>

definition as_empty :: "env \<Rightarrow> string \<Rightarrow> env" where
  "as_empty e d = e\<lparr>fs_readdir := (fs_readdir e)(d \<mapsto> [])\<rparr>"

section \<open>Path validation\<close>

subsection \<open>Case conversion and splitting\<close>

lemma toLowerCase_char_slash [simp]: "toLowerCase_char c = CHR ''/'' \<longleftrightarrow> c = CHR ''/''"
proof (cases "map_of (zip upper_letters lower_letters) c")
  case None
  then show ?thesis by (simp add: toLowerCase_char_def)
next
  case (Some l)
  then have "(c, l) \<in> set (zip upper_letters lower_letters)"
    by (rule map_of_SomeD)
  then have "l \<noteq> CHR ''/'' \<and> c \<noteq> CHR ''/''"
    by (auto simp: upper_letters_def lower_letters_def)
  with Some show ?thesis by (simp add: toLowerCase_char_def)
qed

lemma split_path_not_Nil [simp]: "split_path p \<noteq> []"
  by (induction p) (auto split: list.splits)

lemma split_path_toLowerCase:
  "split_path (toLowerCase p) = map toLowerCase (split_path p)"
  unfolding toLowerCase_def
  by (induction p) (auto split: list.splits)

lemma toLowerCase_Nil_iff: "toLowerCase s = [] \<longleftrightarrow> s = []"
  by (simp add: toLowerCase_def)

lemma path_segments_toLowerCase:
  "path_segments (toLowerCase p) = map toLowerCase (path_segments p)"
  by (simp add: path_segments_def split_path_toLowerCase filter_map comp_def toLowerCase_Nil_iff)

lemma split_path_slash_free: "s \<in> set (split_path p) \<Longrightarrow> CHR ''/'' \<notin> set s"
  by (induction p arbitrary: s) (auto split: list.splits if_splits)

lemma split_path_append_slash_free:
  "CHR ''/'' \<notin> set x \<Longrightarrow>
     split_path (x @ t) = (case split_path t of [] \<Rightarrow> [x] | s # ss \<Rightarrow> (x @ s) # ss)"
  by (induction x) (auto split: list.splits)

lemma split_path_concat:
  "good_segments xs \<Longrightarrow>
     \<exists>rest. split_path (concat (map (\<lambda>s. CHR ''/'' # s) xs)) = [] # rest \<and> filter (\<lambda>s. s \<noteq> []) rest = xs"
proof (induction xs)
  case Nil
  then show ?case by simp
next
  case (Cons x xs)
  then obtain rest where r: "split_path (concat (map (\<lambda>s. CHR ''/'' # s) xs)) = [] # rest"
      "filter (\<lambda>s. s \<noteq> []) rest = xs"
    by (auto simp: good_segments_def)
  from Cons.prems have x: "x \<noteq> []" "CHR ''/'' \<notin> set x" by (auto simp: good_segments_def)
  show ?case using r x by (simp add: split_path_append_slash_free)
qed

lemma path_segments_render_path:
  "good_segments xs \<Longrightarrow> path_segments (render_path xs) = xs"
  using split_path_concat [of xs]
  by (auto simp: path_segments_def render_path_def)

lemma good_segments_Cons:
  "good_segments (s # acc) \<longleftrightarrow> s \<noteq> [] \<and> CHR ''/'' \<notin> set s \<and> good_segments acc"
  by (simp add: good_segments_def)

lemma good_segments_pop: "good_segments acc \<Longrightarrow> good_segments (case acc of [] \<Rightarrow> [] | _ # r \<Rightarrow> r)"
  by (cases acc) (simp_all add: good_segments_def)

lemma good_segments_rev: "good_segments (rev acc) = good_segments acc"
  by (simp add: good_segments_def)

lemma good_normalize_segments:
  "good_segments acc \<Longrightarrow> \<forall>s\<in>set ss. CHR ''/'' \<notin> set s \<Longrightarrow> good_segments (normalize_segments acc ss)"
proof (induction ss arbitrary: acc)
  case Nil
  then show ?case by (simp add: good_segments_rev)
next
  case (Cons s ss)
  from Cons.prems have ss: "\<forall>s\<in>set ss. CHR ''/'' \<notin> set s" and s: "CHR ''/'' \<notin> set s"
    by simp_all
  show ?case
  proof (cases "s = [] \<or> s = ''.''")
    case True
    then show ?thesis using Cons.IH [OF Cons.prems(1) ss] by auto
  next
    case False
    note nd = False
    show ?thesis
    proof (cases "s = ''..''")
      case True
      then show ?thesis
        using Cons.IH [OF good_segments_pop [OF Cons.prems(1)] ss] by simp
    next
      case False
      have "good_segments (s # acc)"
        using nd s Cons.prems(1) by (simp add: good_segments_Cons)
      from Cons.IH [OF this ss] show ?thesis using nd False by simp
    qed
  qed
qed

lemma good_resolved: "good_segments (normalize_segments [] (split_path p))"
  by (rule good_normalize_segments) (auto simp: good_segments_def dest: split_path_slash_free)

lemma path_resolve_segments:
  "render_path (path_segments (path_resolve wd p)) = path_resolve wd p"
  by (simp add: path_resolve_def path_segments_render_path good_resolved)

lemma toLowerCase_slash: "toLowerCase_char (CHR ''/'') = CHR ''/''"
  by simp

lemma toLowerCase_render_path:
  "toLowerCase (render_path xs) = render_path (map toLowerCase xs)"
  by (simp add: render_path_def toLowerCase_def map_concat comp_def toLowerCase_slash)

lemma render_path_starts: "\<exists>t. render_path ys = CHR ''/'' # t"
  by (cases ys) (auto simp: render_path_def)

lemma prefix_render_path: "prefix xs ys \<Longrightarrow> prefix (render_path xs) (render_path ys)"
proof (cases "xs = []")
  case True
  then show ?thesis using render_path_starts [of ys] by (auto simp: render_path_def)
next
  case False
  assume "prefix xs ys"
  then obtain zs where "ys = xs @ zs" by (auto simp: prefix_def)
  with False show ?thesis by (simp add: render_path_def)
qed

lemma spec_nested_under_raw_prefix:
  assumes r: "render_path (path_segments r) = r" and c: "render_path (path_segments c) = c"
    and n: "spec_nested_under r c"
  shows "prefix (toLowerCase r) (toLowerCase c)"
proof -
  from n have "prefix (map toLowerCase (path_segments r)) (map toLowerCase (path_segments c))"
    by (simp add: spec_nested_under_def path_segments_toLowerCase)
  then have "prefix (render_path (map toLowerCase (path_segments r)))
                    (render_path (map toLowerCase (path_segments c)))"
    by (rule prefix_render_path)
  then have "prefix (toLowerCase (render_path (path_segments r))) (toLowerCase (render_path (path_segments c)))"
    by (simp add: toLowerCase_render_path)
  with r c show ?thesis by simp
qed

lemma first_restricted_None:
  "first_restricted np rs = None \<longleftrightarrow> (\<forall>r\<in>set rs. \<not> prefix (toLowerCase r) (toLowerCase np))"
  by (induction rs) auto

lemma first_restricted_Some:
  "first_restricted np rs = Some r \<Longrightarrow> r \<in> set rs \<and> prefix (toLowerCase r) (toLowerCase np)"
  by (induction rs) (auto split: if_splits)

lemma validatePath_rejects_iff:
  "(\<exists>r. validatePath wd p rs = Inl (AccessDenied r)) \<longleftrightarrow>
   (\<exists>r\<in>set rs. prefix (toLowerCase r) (toLowerCase (path_resolve wd p)))"
proof (cases "first_restricted (path_resolve wd p) rs")
  case None
  then show ?thesis
    using first_restricted_None [of "path_resolve wd p" rs]
    by (auto simp: validatePath_def)
next
  case (Some r)
  then show ?thesis
    using first_restricted_Some [OF Some]
    by (auto simp: validatePath_def)
qed

lemma validatePath_cases:
  "(\<exists>r. validatePath wd p rs = Inl (AccessDenied r)) \<or> validatePath wd p rs = Inr (path_resolve wd p)"
  by (auto simp: validatePath_def Let_def split: option.splits)

lemma validatePath_AccessDenied:
  assumes "r \<in> set rs" and "path_resolve wd r = r" and "spec_nested_under r (path_resolve wd p)"
  shows "\<exists>r'. validatePath wd p rs = Inl (AccessDenied r')"
proof -
  have "render_path (path_segments r) = r"
    using path_resolve_segments [of wd r] assms(2) by simp
  then have "prefix (toLowerCase r) (toLowerCase (path_resolve wd p))"
    using spec_nested_under_raw_prefix [OF _ path_resolve_segments assms(3)] by simp
  with assms(1) show ?thesis
    using validatePath_rejects_iff [of wd p rs] by blast
qed

subsection \<open>Resolved paths are canonical\<close>

text \<open>
  A canonical path is a fixed point of \<^const>\<open>path_resolve\<close>; every resolved path is
  one.
\<close>

lemma normalize_segments_clean:
  "\<forall>s\<in>set ss. s = [] \<or> (s \<noteq> ''.'' \<and> s \<noteq> ''..'') \<Longrightarrow>
     normalize_segments acc ss = rev acc @ filter (\<lambda>s. s \<noteq> []) ss"
  by (induction ss arbitrary: acc) auto

lemma clean_normalize_segments:
  "clean_segments acc \<Longrightarrow> \<forall>s\<in>set ss. CHR ''/'' \<notin> set s \<Longrightarrow>
     clean_segments (normalize_segments acc ss)"
proof (induction ss arbitrary: acc)
  case Nil
  then show ?case by (simp add: clean_segments_def good_segments_rev)
next
  case (Cons s ss)
  from Cons.prems have ss: "\<forall>s\<in>set ss. CHR ''/'' \<notin> set s" and s: "CHR ''/'' \<notin> set s"
    by simp_all
  have pop: "clean_segments (case acc of [] \<Rightarrow> [] | _ # r \<Rightarrow> r)"
    using Cons.prems(1) by (cases acc) (auto simp: clean_segments_def good_segments_def)
  show ?case
  proof (cases "s = [] \<or> s = ''.''")
    case True
    then show ?thesis using Cons.IH [OF Cons.prems(1) ss] by auto
  next
    case False
    note nd = False
    show ?thesis
    proof (cases "s = ''..''")
      case True
      then show ?thesis using Cons.IH [OF pop ss] by simp
    next
      case False
      have "clean_segments (s # acc)"
        using nd s False Cons.prems(1) by (auto simp: clean_segments_def good_segments_def)
      from Cons.IH [OF this ss] show ?thesis using nd False by simp
    qed
  qed
qed

lemma path_resolve_idem: "path_resolve wd (path_resolve wd p) = path_resolve wd p"
proof -
  define ns where "ns = normalize_segments [] (split_path (if isAbsolute p then p else wd @ ''/'' @ p))"
  have c: "clean_segments ns"
    unfolding ns_def
    by (rule clean_normalize_segments)
       (auto simp: clean_segments_def good_segments_def dest: split_path_slash_free)
  then have g: "good_segments ns" by (simp add: clean_segments_def)
  have r: "path_resolve wd p = render_path ns" by (simp add: path_resolve_def ns_def)
  have abs: "isAbsolute (render_path ns)"
    using render_path_starts [of ns] by (auto simp: isAbsolute_def)
  from split_path_slash_free have "\<forall>s\<in>set (split_path (render_path ns)). s = [] \<or> (s \<noteq> ''.'' \<and> s \<noteq> ''..'')"
  proof -
    have "set (filter (\<lambda>s. s \<noteq> []) (split_path (render_path ns))) = set ns"
      using path_segments_render_path [OF g] by (simp add: path_segments_def)
    with c show ?thesis by (auto simp: clean_segments_def)
  qed
  then have "normalize_segments [] (split_path (render_path ns)) = path_segments (render_path ns)"
    by (simp add: normalize_segments_clean path_segments_def)
  with path_segments_render_path [OF g]
  have n: "normalize_segments [] (split_path (render_path ns)) = ns" by simp
  have "path_resolve wd (render_path ns) =
      render_path (normalize_segments [] (split_path (render_path ns)))"
    using abs by (simp add: path_resolve_def)
  with n show ?thesis by (simp only: r)
qed

subsection \<open>Claim C1\<close>

text \<open>
  C1. The claim reads: path validation rejects with \<open>AccessDenied\<close> exactly when the
  canonical path is equal to, or nested under, a restricted prefix, nesting being
  decided on path-segment boundaries, so that \<^verbatim>\<open>/a/bc\<close> is not rejected for the
  prefix \<^verbatim>\<open>/a/b\<close>. Under its comment "Check if path is in restricted
  directories", \<^verbatim>\<open>validatePath\<close> compares the lower-cased strings with
  \<^verbatim>\<open>startsWith\<close>: the path \<^verbatim>\<open>/a/bc\<close> is canonical and is not nested under
  \<^verbatim>\<open>/a/b\<close>, and \<^verbatim>\<open>validatePath\<close> rejects it with "Path is in restricted directory:
  /a/b".
\<close>

theorem validatePath_rejects_sibling_path:
  "path_resolve ''/'' ''/a/bc'' = ''/a/bc'' \<and>
   \<not> spec_nested_under ''/a/b'' ''/a/bc'' \<and>
   validatePath ''/'' ''/a/bc'' [''/a/b''] = Inl (AccessDenied ''/a/b'')"
  by code_simp

section \<open>The four tools\<close>

subsection \<open>Evaluating the definitions on concrete inputs\<close>

lemmas string_eval = toLowerCase_def toLowerCase_char_def toUpperCase_def toUpperCase_char_def
  upper_letters_def lower_letters_def

lemmas path_eval = path_resolve_def path_join_def isAbsolute_def render_path_def path_segments_def
  path_basename_def path_dirname_def path_extname_def validatePath_def spec_nested_under_def

lemmas size_eval = formatFileSize_def formatFileSize_loop.simps toFixed1_def show_nat.simps units_def

lemmas gate_eval = validateExtension_def imageExtensions_def dotnetExtensions_def
  binaryExtensions_def isBinaryFile_def read_binaryExtensions_def mime_or_unknown_def
  isFile_def isDirectory_def binary_placeholder_def Let_def

lemmas example_eval = ex_stats_def ex_cfg_def link_realpath_def link_env_def spec_canonical_def
  data_stat_table_def data_dir_table_def data_content_table_def ex_mime_def data_env_def
  hidden_stat_table_def hidden_dir_table_def hidden_env_def

subsection \<open>Claim C2\<close>

lemma ops_validatePath_error:
  assumes "validatePath (cwd e) p (restrictedPaths cfg) = Inl err"
  shows "read_file e cfg p encoding = Inl err"
    and "list_directory e cfg p include_hidden = Inl err"
    and "get_file_info e cfg p = Inl err"
    and "search_files e cfg p pattern recursive = Inl err"
  using assms
  by (simp_all add: read_file_def list_directory_def get_file_info_def search_files_def)

text \<open>
  C2. The claim reads: whenever the canonical form of a path, with \<^verbatim>\<open>.\<close> and
  \<^verbatim>\<open>..\<close> eliminated and symbolic links resolved, lies under a restricted prefix,
  each of the four operations returns \<open>AccessDenied\<close>. The code canonicalises with
  \<^verbatim>\<open>path.resolve\<close> only, which does not look at links: with \<^verbatim>\<open>/tmp/link\<close> a link
  to the restricted \<^verbatim>\<open>/system\<close>, reading \<^verbatim>\<open>/tmp/link/x.txt\<close> returns the content.
\<close>

theorem symlink_bypass_counterexample:
  "spec_nested_under ''/system'' (spec_canonical link_realpath (cwd link_env) ''/tmp/link/x.txt'') \<and>
   read_file link_env ex_cfg ''/tmp/link/x.txt'' ''utf8'' =
     Inr \<lparr>rf_isBinary = False, rf_content = ''secret'', rf_path = ''/tmp/link/x.txt'',
          rf_size = 6, rf_sizeFormatted = ''6.0 B'', rf_encoding = Some ''utf8'',
          rf_mimeType = ''text/plain'', rf_lastModified = 0, rf_fileType = None,
          rf_message = None\<rparr>"
  by (simp add: read_file_def string_eval path_eval size_eval gate_eval example_eval)

text \<open>
  C2, as the code has it: whenever the \<^verbatim>\<open>path.resolve\<close> form of a path (absolute,
  \<^verbatim>\<open>.\<close> and \<^verbatim>\<open>..\<close> eliminated, no trailing separator) is equal to or nested under
  a canonical restricted prefix, compared case-insensitively, the four operations
  all return \<open>AccessDenied\<close>, however the path is spelled.
\<close>

theorem restricted_paths_denied:
  assumes "r \<in> set (restrictedPaths cfg)"
    and "path_resolve (cwd e) r = r"
    and "spec_nested_under r (path_resolve (cwd e) p)"
  shows "\<exists>r'. read_file e cfg p encoding = Inl (AccessDenied r') \<and>
              list_directory e cfg p include_hidden = Inl (AccessDenied r') \<and>
              get_file_info e cfg p = Inl (AccessDenied r') \<and>
              search_files e cfg p pattern recursive = Inl (AccessDenied r')"
proof -
  from validatePath_AccessDenied [OF assms]
  obtain r' where "validatePath (cwd e) p (restrictedPaths cfg) = Inl (AccessDenied r')" ..
  then show ?thesis
    using ops_validatePath_error [of e p cfg "AccessDenied r'"] by blast
qed

theorem restricted_paths_denied_witness:
  "read_file data_env ex_cfg ''/system/../system/x.txt'' ''utf8'' = Inl (AccessDenied ''/system'') \<and>
   list_directory data_env ex_cfg ''../SYSTEM/./Logs/'' False = Inl (AccessDenied ''/system'') \<and>
   get_file_info data_env ex_cfg ''/system/../system/x.txt'' = Inl (AccessDenied ''/system'') \<and>
   search_files data_env ex_cfg ''/system/../system/x.txt'' ''*'' True = Inl (AccessDenied ''/system'')"
proof -
  have r: "''/system'' \<in> set (restrictedPaths ex_cfg)"
    by (simp add: ex_cfg_def)
  have c: "path_resolve (cwd data_env) ''/system'' = ''/system''"
    by (simp add: path_eval example_eval)
  have n1: "spec_nested_under ''/system'' (path_resolve (cwd data_env) ''/system/../system/x.txt'')"
    by (simp add: path_eval string_eval example_eval)
  have n2: "spec_nested_under ''/system'' (path_resolve (cwd data_env) ''../SYSTEM/./Logs/'')"
    by (simp add: path_eval string_eval example_eval)
  have v1: "validatePath (cwd data_env) ''/system/../system/x.txt'' (restrictedPaths ex_cfg) = Inl (AccessDenied ''/system'')"
    by (simp add: path_eval string_eval example_eval)
  have v2: "validatePath (cwd data_env) ''../SYSTEM/./Logs/'' (restrictedPaths ex_cfg) = Inl (AccessDenied ''/system'')"
    by (simp add: path_eval string_eval example_eval)
  from restricted_paths_denied [OF r c n1, of "''utf8''" False "''*''" True]
  obtain r1 where 1: "read_file data_env ex_cfg ''/system/../system/x.txt'' ''utf8'' = Inl (AccessDenied r1)"
      "get_file_info data_env ex_cfg ''/system/../system/x.txt'' = Inl (AccessDenied r1)"
      "search_files data_env ex_cfg ''/system/../system/x.txt'' ''*'' True = Inl (AccessDenied r1)"
    by blast
  from restricted_paths_denied [OF r c n2, of "''utf8''" False "''*''" True]
  obtain r2 where 2: "list_directory data_env ex_cfg ''../SYSTEM/./Logs/'' False = Inl (AccessDenied r2)"
    by blast
  from 1 v1 have "r1 = ''/system''" by (simp add: read_file_def)
  moreover from 2 v2 have "r2 = ''/system''" by (simp add: list_directory_def)
  ultimately show ?thesis using 1 2 by simp
qed

subsection \<open>Claim C3\<close>

lemma mime_or_unknown_readFile [simp]:
  "mime_or_unknown (e\<lparr>fs_readFile := g\<rparr>) p = mime_or_unknown e p"
  by (simp add: mime_or_unknown_def)

text \<open>
  C3. Every file that passes the gates of \<^verbatim>\<open>read_file\<close> and is classified as binary
  (by its extension, or by a MIME type that starts with \<^verbatim>\<open>image/\<close> or
  \<^verbatim>\<open>application/\<close>) is answered with the metadata envelope whose content is the
  fixed placeholder. The answer is the same whatever bytes the files hold: it is
  given here in full for the file system with any contents \<open>bytes\<close> in place of
  its own, and no field of it depends on them.
\<close>

theorem binary_content_is_placeholder:
  "validatePath (cwd e) p (restrictedPaths cfg) = Inr vp \<longrightarrow>
   validateExtension vp (allowedExtensions cfg) cfg = Inr True \<longrightarrow>
   fs_stat e vp = Some st \<longrightarrow> isFile st \<longrightarrow> st_size st \<le> maxFileSize cfg \<longrightarrow>
   (toLowerCase (path_extname vp) \<in> set read_binaryExtensions \<or>
    prefix ''image/'' (mime_or_unknown e vp) \<or> prefix ''application/'' (mime_or_unknown e vp)) \<longrightarrow>
     read_file (e\<lparr>fs_readFile := bytes\<rparr>) cfg p encoding =
       Inr \<lparr>rf_isBinary = True,
            rf_content = ''[Binary file - content not readable as text]'',
            rf_path = vp,
            rf_size = st_size st,
            rf_sizeFormatted = formatFileSize (st_size st),
            rf_encoding = None,
            rf_mimeType = mime_or_unknown e vp,
            rf_lastModified = st_mtime st,
            rf_fileType = Some (toLowerCase (path_extname vp)),
            rf_message = Some (''This is a binary file ('' @ toLowerCase (path_extname vp) @
              ''). Only metadata is shown. Use get_file_info for detailed information.'')\<rparr>"
proof (intro impI)
  assume a: "validatePath (cwd e) p (restrictedPaths cfg) = Inr vp"
    "validateExtension vp (allowedExtensions cfg) cfg = Inr True"
    "fs_stat e vp = Some st" "isFile st" "st_size st \<le> maxFileSize cfg"
    "toLowerCase (path_extname vp) \<in> set read_binaryExtensions \<or>
      prefix ''image/'' (mime_or_unknown e vp) \<or> prefix ''application/'' (mime_or_unknown e vp)"
  from a(6) have b: "isBinaryFile (toLowerCase (path_extname vp)) (mime_or_unknown e vp)"
    by (simp add: isBinaryFile_def)
  from a(1-5) b show "read_file (e\<lparr>fs_readFile := bytes\<rparr>) cfg p encoding =
       Inr \<lparr>rf_isBinary = True,
            rf_content = ''[Binary file - content not readable as text]'',
            rf_path = vp,
            rf_size = st_size st,
            rf_sizeFormatted = formatFileSize (st_size st),
            rf_encoding = None,
            rf_mimeType = mime_or_unknown e vp,
            rf_lastModified = st_mtime st,
            rf_fileType = Some (toLowerCase (path_extname vp)),
            rf_message = Some (''This is a binary file ('' @ toLowerCase (path_extname vp) @
              ''). Only metadata is shown. Use get_file_info for detailed information.'')\<rparr>"
    by (simp add: read_file_def binary_placeholder_def Let_def)
qed

theorem binary_content_is_placeholder_witness:
  "toLowerCase (path_extname ''/data/pic.png'') \<in> set read_binaryExtensions \<and>
   fs_readFile data_env ''/data/pic.png'' ''utf8'' = Some ''PNGDATA'' \<and>
   read_file data_env ex_cfg ''/data/pic.png'' ''utf8'' =
     Inr \<lparr>rf_isBinary = True, rf_content = ''[Binary file - content not readable as text]'',
          rf_path = ''/data/pic.png'', rf_size = 7, rf_sizeFormatted = ''7.0 B'',
          rf_encoding = None, rf_mimeType = ''image/png'', rf_lastModified = 0,
          rf_fileType = Some ''.png'',
          rf_message = Some ''This is a binary file (.png). Only metadata is shown. Use get_file_info for detailed information.''\<rparr> \<and>
   read_file (data_env\<lparr>fs_readFile := (\<lambda>p encoding. Some ''other bytes'')\<rparr>) ex_cfg ''/data/pic.png'' ''utf8'' =
     read_file data_env ex_cfg ''/data/pic.png'' ''utf8''"
proof -
  have v: "validatePath (cwd data_env) ''/data/pic.png'' (restrictedPaths ex_cfg) = Inr ''/data/pic.png''"
    by (simp add: string_eval path_eval example_eval)
  have x: "validateExtension ''/data/pic.png'' (allowedExtensions ex_cfg) ex_cfg = Inr True"
    by (simp add: string_eval path_eval gate_eval example_eval)
  have s: "fs_stat data_env ''/data/pic.png'' = Some (ex_stats File 7)"
    by (simp add: example_eval)
  have f: "isFile (ex_stats File 7)" "st_size (ex_stats File 7) \<le> maxFileSize ex_cfg"
    by (simp_all add: gate_eval example_eval)
  have l: "toLowerCase (path_extname ''/data/pic.png'') = ''.png''"
    by (simp add: string_eval path_eval)
  have c: "toLowerCase (path_extname ''/data/pic.png'') \<in> set read_binaryExtensions"
    by (simp add: l read_binaryExtensions_def)
  have m: "mime_or_unknown data_env ''/data/pic.png'' = ''image/png''"
    by (simp add: string_eval path_eval gate_eval example_eval)
  have b: "fs_readFile data_env ''/data/pic.png'' ''utf8'' = Some ''PNGDATA''"
    by (simp add: example_eval)
  have z: "formatFileSize 7 = ''7.0 B''" "st_size (ex_stats File 7) = 7"
    "st_mtime (ex_stats File 7) = 0"
    by (simp_all add: size_eval example_eval)
  have own: "data_env\<lparr>fs_readFile := fs_readFile data_env\<rparr> = data_env"
    by simp
  note t = binary_content_is_placeholder [of data_env "''/data/pic.png''" ex_cfg "''/data/pic.png''"
      "ex_stats File 7" _ "''utf8''"]
  from t [of "fs_readFile data_env"] v x s f c
  have 1: "read_file data_env ex_cfg ''/data/pic.png'' ''utf8'' =
     Inr \<lparr>rf_isBinary = True, rf_content = ''[Binary file - content not readable as text]'',
          rf_path = ''/data/pic.png'', rf_size = 7, rf_sizeFormatted = ''7.0 B'',
          rf_encoding = None, rf_mimeType = ''image/png'', rf_lastModified = 0,
          rf_fileType = Some ''.png'',
          rf_message = Some ''This is a binary file (.png). Only metadata is shown. Use get_file_info for detailed information.''\<rparr>"
    by (simp add: own l m z)
  from t [of "\<lambda>p encoding. Some ''other bytes''"] v x s f c
  have 2: "read_file (data_env\<lparr>fs_readFile := (\<lambda>p encoding. Some ''other bytes'')\<rparr>) ex_cfg ''/data/pic.png'' ''utf8'' =
     Inr \<lparr>rf_isBinary = True, rf_content = ''[Binary file - content not readable as text]'',
          rf_path = ''/data/pic.png'', rf_size = 7, rf_sizeFormatted = ''7.0 B'',
          rf_encoding = None, rf_mimeType = ''image/png'', rf_lastModified = 0,
          rf_fileType = Some ''.png'',
          rf_message = Some ''This is a binary file (.png). Only metadata is shown. Use get_file_info for detailed information.''\<rparr>"
    by (simp add: l m z)
  from 1 2 c b show ?thesis by simp
qed

subsection \<open>Claim C4\<close>

lemma read_file_isBinary:
  assumes "read_file e cfg p encoding = Inr r"
  shows "rf_isBinary r = isBinaryFile (toLowerCase (path_extname (rf_path r))) (rf_mimeType r)"
  using assms
  by (auto simp: read_file_def Let_def split: sum.splits option.splits if_splits)

text \<open>
  C4. \<^verbatim>\<open>read_file\<close> classifies a file as binary exactly when its extension is in
  the hard-coded list or its MIME type starts with \<^verbatim>\<open>image/\<close> or
  \<^verbatim>\<open>application/\<close>; so a file that passes all gates and whose MIME type starts with
  \<^verbatim>\<open>application/\<close>, such as an allowlisted \<^verbatim>\<open>.json\<close> file, is answered with the
  placeholder and not with its text.
\<close>

theorem application_mime_is_binary:
  "(read_file e cfg p encoding = Inr r \<longrightarrow>
      rf_isBinary r =
        (toLowerCase (path_extname (rf_path r)) \<in> set read_binaryExtensions \<or>
         prefix ''image/'' (rf_mimeType r) \<or> prefix ''application/'' (rf_mimeType r))) \<and>
   (validatePath (cwd e) p (restrictedPaths cfg) = Inr vp \<longrightarrow>
    validateExtension vp (allowedExtensions cfg) cfg = Inr True \<longrightarrow>
    fs_stat e vp = Some st \<longrightarrow> isFile st \<longrightarrow> st_size st \<le> maxFileSize cfg \<longrightarrow>
    mime_lookup e vp = Some m \<longrightarrow> prefix ''application/'' m \<longrightarrow>
      (\<exists>r'. read_file e cfg p encoding = Inr r' \<and> rf_isBinary r' \<and> rf_mimeType r' = m \<and>
            rf_content r' = ''[Binary file - content not readable as text]''))"
proof (intro conjI impI)
  assume "read_file e cfg p encoding = Inr r"
  from read_file_isBinary [OF this]
  show "rf_isBinary r =
        (toLowerCase (path_extname (rf_path r)) \<in> set read_binaryExtensions \<or>
         prefix ''image/'' (rf_mimeType r) \<or> prefix ''application/'' (rf_mimeType r))"
    by (simp add: isBinaryFile_def)
next
  assume a: "validatePath (cwd e) p (restrictedPaths cfg) = Inr vp"
    "validateExtension vp (allowedExtensions cfg) cfg = Inr True"
    "fs_stat e vp = Some st" "isFile st" "st_size st \<le> maxFileSize cfg"
    "mime_lookup e vp = Some m" "prefix ''application/'' m"
  from a(7) have "m \<noteq> []" by auto
  with a(6) have "mime_or_unknown e vp = m" by (simp add: mime_or_unknown_def)
  with a show "\<exists>r'. read_file e cfg p encoding = Inr r' \<and> rf_isBinary r' \<and> rf_mimeType r' = m \<and>
            rf_content r' = ''[Binary file - content not readable as text]''"
    by (simp add: read_file_def isBinaryFile_def binary_placeholder_def Let_def)
qed

theorem application_mime_is_binary_witness:
  "validateExtension ''/data/a.json'' (allowedExtensions ex_cfg) ex_cfg = Inr True \<and>
   fs_readFile data_env ''/data/a.json'' ''utf8'' = Some ''[1, 2, 3]'' \<and>
   read_file data_env ex_cfg ''a.json'' ''utf8'' =
     Inr \<lparr>rf_isBinary = True, rf_content = ''[Binary file - content not readable as text]'',
          rf_path = ''/data/a.json'', rf_size = 9, rf_sizeFormatted = ''9.0 B'',
          rf_encoding = None, rf_mimeType = ''application/json'', rf_lastModified = 0,
          rf_fileType = Some ''.json'',
          rf_message = Some ''This is a binary file (.json). Only metadata is shown. Use get_file_info for detailed information.''\<rparr>"
proof -
  have v: "validatePath (cwd data_env) ''a.json'' (restrictedPaths ex_cfg) = Inr ''/data/a.json''"
    by (simp add: string_eval path_eval example_eval)
  have x: "validateExtension ''/data/a.json'' (allowedExtensions ex_cfg) ex_cfg = Inr True"
    by (simp add: string_eval path_eval gate_eval example_eval)
  have s: "fs_stat data_env ''/data/a.json'' = Some (ex_stats File 9)"
    by (simp add: example_eval)
  have f: "isFile (ex_stats File 9)" "st_size (ex_stats File 9) \<le> maxFileSize ex_cfg"
    by (simp_all add: gate_eval example_eval)
  have m: "mime_lookup data_env ''/data/a.json'' = Some ''application/json''"
    by (simp add: string_eval path_eval example_eval)
  have c: "fs_readFile data_env ''/data/a.json'' ''utf8'' = Some ''[1, 2, 3]''"
    by (simp add: example_eval)
  from application_mime_is_binary [of data_env ex_cfg "''a.json''" "''utf8''" _ "''/data/a.json''"
      "ex_stats File 9" "''application/json''"] v x s f m
  obtain r' where "read_file data_env ex_cfg ''a.json'' ''utf8'' = Inr r'" "rf_isBinary r'"
    by auto
  moreover have "read_file data_env ex_cfg ''a.json'' ''utf8'' =
     Inr \<lparr>rf_isBinary = True, rf_content = ''[Binary file - content not readable as text]'',
          rf_path = ''/data/a.json'', rf_size = 9, rf_sizeFormatted = ''9.0 B'',
          rf_encoding = None, rf_mimeType = ''application/json'', rf_lastModified = 0,
          rf_fileType = Some ''.json'',
          rf_message = Some ''This is a binary file (.json). Only metadata is shown. Use get_file_info for detailed information.''\<rparr>"
    by (simp add: read_file_def string_eval path_eval size_eval gate_eval example_eval)
  ultimately show ?thesis using x c by simp
qed

subsection \<open>Claim C7\<close>









subsection \<open>Claim C8\<close>

text \<open>
  C8. For a regular file that passes the path and extension gates, \<^verbatim>\<open>read_file\<close>
  fails with \<open>TooLarge\<close> exactly when the size is greater than the limit: a file
  of exactly the limit passes the size check and is read (its content can be
  read, or it is answered as binary), a file one byte larger fails with
  \<open>TooLarge\<close>.
\<close>

theorem size_limit_boundary:
  assumes "validatePath (cwd e) p (restrictedPaths cfg) = Inr vp"
    and "validateExtension vp (allowedExtensions cfg) cfg = Inr True"
    and "fs_stat e vp = Some st"
    and "isFile st"
  shows "(st_size st = maxFileSize cfg \<longrightarrow>
            (isBinaryFile (toLowerCase (path_extname vp)) (mime_or_unknown e vp) \<or>
             fs_readFile e vp encoding \<noteq> None) \<longrightarrow>
            (\<exists>r. read_file e cfg p encoding = Inr r \<and> rf_size r = maxFileSize cfg)) \<and>
         (st_size st = maxFileSize cfg + 1 \<longrightarrow>
            read_file e cfg p encoding = Inl (TooLarge (maxFileSize cfg + 1) (maxFileSize cfg))) \<and>
         ((\<exists>n m. read_file e cfg p encoding = Inl (TooLarge n m)) \<longleftrightarrow> st_size st > maxFileSize cfg)"
proof (intro conjI impI)
  assume "st_size st = maxFileSize cfg"
    and "isBinaryFile (toLowerCase (path_extname vp)) (mime_or_unknown e vp) \<or>
         fs_readFile e vp encoding \<noteq> None"
  with assms show "\<exists>r. read_file e cfg p encoding = Inr r \<and> rf_size r = maxFileSize cfg"
    by (auto simp: read_file_def Let_def)
next
  assume "st_size st = maxFileSize cfg + 1"
  with assms show "read_file e cfg p encoding = Inl (TooLarge (maxFileSize cfg + 1) (maxFileSize cfg))"
    by (simp add: read_file_def)
next
  from assms show "(\<exists>n m. read_file e cfg p encoding = Inl (TooLarge n m)) \<longleftrightarrow> st_size st > maxFileSize cfg"
    by (auto simp: read_file_def Let_def split: option.splits)
qed

theorem size_limit_boundary_witness:
  "maxFileSize ex_cfg = 1048576 \<and>
   st_size (the (fs_stat data_env ''/data/notes.txt'')) = 1048576 \<and>
   st_size (the (fs_stat data_env ''/data/big.txt'')) = 1048577 \<and>
   read_file data_env ex_cfg ''/data/notes.txt'' ''utf8'' =
     Inr \<lparr>rf_isBinary = False, rf_content = replicate 1048576 (CHR ''n''),
          rf_path = ''/data/notes.txt'', rf_size = 1048576, rf_sizeFormatted = ''1.0 MB'',
          rf_encoding = Some ''utf8'', rf_mimeType = ''text/plain'', rf_lastModified = 0,
          rf_fileType = None, rf_message = None\<rparr> \<and>
   read_file data_env ex_cfg ''/data/big.txt'' ''utf8'' = Inl (TooLarge 1048577 1048576)"
proof -
  have v: "validatePath (cwd data_env) ''/data/big.txt'' (restrictedPaths ex_cfg) = Inr ''/data/big.txt''"
    by (simp add: string_eval path_eval example_eval)
  have x: "validateExtension ''/data/big.txt'' (allowedExtensions ex_cfg) ex_cfg = Inr True"
    by (simp add: string_eval path_eval gate_eval example_eval)
  have s: "fs_stat data_env ''/data/big.txt'' = Some (ex_stats File 1048577)" "isFile (ex_stats File 1048577)"
    by (simp_all add: gate_eval example_eval)
  have m: "maxFileSize ex_cfg = 1048576" by (simp add: ex_cfg_def)
  from size_limit_boundary [OF v x s, of "''utf8''"] m
  have big: "read_file data_env ex_cfg ''/data/big.txt'' ''utf8'' = Inl (TooLarge 1048577 1048576)"
    by (simp add: ex_stats_def)
  have exact: "read_file data_env ex_cfg ''/data/notes.txt'' ''utf8'' =
     Inr \<lparr>rf_isBinary = False, rf_content = replicate 1048576 (CHR ''n''),
          rf_path = ''/data/notes.txt'', rf_size = 1048576, rf_sizeFormatted = ''1.0 MB'',
          rf_encoding = Some ''utf8'', rf_mimeType = ''text/plain'', rf_lastModified = 0,
          rf_fileType = None, rf_message = None\<rparr>"
    by (simp add: read_file_def string_eval path_eval size_eval gate_eval example_eval)
  from big exact m show ?thesis by (simp add: example_eval)
qed

section \<open>Pattern matching\<close>

lemmas regex_eval = replace_all_def regex_source_def regexp_compile_def syntax_character_def
  line_terminator_def same_letter_def canonicalize_def match_alternative_def matchesPattern_def

lemma regex_body_Nil [simp]: "regex_body [] = []"
  by (simp add: regex_body_def replace_all_def)

lemma regex_body_Cons:
  "regex_body (c # cs) =
     (if c = CHR ''*'' then ''.*'' else if c = CHR ''?'' then ''.'' else [c]) @ regex_body cs"
  by (simp add: regex_body_def replace_all_def)

lemma regex_body_no_star_first: "regex_body cs = d # ds \<Longrightarrow> d \<noteq> CHR ''*''"
  by (cases cs) (auto simp: regex_body_Cons split: if_splits)

lemma parse_items_regex_body:
  "fragment_pattern pattern \<Longrightarrow> parse_items (regex_body pattern) = Some (glob_items pattern)"
proof (induction pattern)
  case Nil
  then show ?case by (simp add: glob_items_def)
next
  case (Cons c cs)
  then have ih: "parse_items (regex_body cs) = Some (glob_items cs)"
    and c: "c = CHR ''*'' \<or> c = CHR ''?'' \<or> c = CHR ''.'' \<or> \<not> syntax_character c"
    by (simp_all add: fragment_pattern_def)
  have dot: "parse_items (CHR ''.'' # regex_body cs) = Some (AnyChar # glob_items cs)"
  proof (cases "regex_body cs")
    case Nil
    with ih show ?thesis by simp
  next
    case (Cons d ds)
    with regex_body_no_star_first [OF Cons] ih show ?thesis by simp
  qed
  consider "c = CHR ''*''" | "c = CHR ''?''" | "c = CHR ''.''"
    | "c \<noteq> CHR ''*''" "c \<noteq> CHR ''?''" "c \<noteq> CHR ''.''" "\<not> syntax_character c"
    using c by blast
  then show ?case
  proof cases
    case 1
    with ih show ?thesis by (simp add: regex_body_Cons glob_items_def)
  next
    case 2
    with dot show ?thesis by (simp add: regex_body_Cons glob_items_def)
  next
    case 3
    with dot show ?thesis by (simp add: regex_body_Cons glob_items_def)
  next
    case 4
    with ih show ?thesis by (simp add: regex_body_Cons glob_items_def)
  qed
qed

lemma split_alternatives_no_bar: "CHR ''|'' \<notin> set s \<Longrightarrow> split_alternatives s = [s]"
  by (induction s) auto

lemma regex_body_no_bar: "fragment_pattern pattern \<Longrightarrow> CHR ''|'' \<notin> set (regex_body pattern)"
  by (induction pattern)
     (auto simp: regex_body_Cons fragment_pattern_def syntax_character_def split: if_splits)

lemma regexp_compile_fragment:
  assumes "fragment_pattern pattern"
  shows "regexp_compile (regex_source pattern) = Some [glob_items pattern]"
proof -
  have "regex_source pattern = CHR ''^'' # (regex_body pattern @ ''$'')"
    by (simp add: regex_source_def regex_body_def)
  then show ?thesis
    using parse_items_regex_body [OF assms] split_alternatives_no_bar [OF regex_body_no_bar [OF assms]]
    by (simp add: regexp_compile_def)
qed

lemma match_glob_items:
  "list_all (\<lambda>c. \<not> line_terminator c) name \<Longrightarrow>
     match_items (glob_items pattern) True name = spec_matches (dot_as_question pattern) name"
proof (induction pattern arbitrary: name)
  case Nil
  then show ?case by (simp add: glob_items_def dot_as_question_def)
next
  case (Cons p ps)
  have tl: "glob_items (p # ps) =
      (if p = CHR ''*'' then AnyStar else if p = CHR ''?'' \<or> p = CHR ''.'' then AnyChar else Lit p) # glob_items ps"
    by (simp add: glob_items_def)
  have dq: "dot_as_question (p # ps) = (if p = CHR ''.'' then CHR ''?'' else p) # dot_as_question ps"
    by (simp add: dot_as_question_def)
  from Cons.prems show ?case
  proof (induction name)
    case Nil
    then show ?case using Cons.IH [of "[]"] by (simp add: tl dq)
  next
    case (Cons x xs)
    then have x: "\<not> line_terminator x" and xs: "list_all (\<lambda>c. \<not> line_terminator c) xs"
      by simp_all
    from Cons.IH [OF xs] have inner: "match_items (glob_items (p # ps)) True xs = spec_matches (dot_as_question (p # ps)) xs" .
    have all: "list_all (\<lambda>c. \<not> line_terminator c) (x # xs)" using x xs by simp
    show ?case
      using inner x \<open>\<And>name. list_all (\<lambda>c. \<not> line_terminator c) name \<Longrightarrow>
        match_items (glob_items ps) True name = spec_matches (dot_as_question ps) name\<close> [OF xs]
        \<open>\<And>name. list_all (\<lambda>c. \<not> line_terminator c) name \<Longrightarrow>
        match_items (glob_items ps) True name = spec_matches (dot_as_question ps) name\<close> [OF all]
      by (auto simp: tl dq)
  qed
qed

lemma matchesPattern_fragment:
  assumes "fragment_pattern pattern" and "list_all (\<lambda>c. \<not> line_terminator c) name"
  shows "matchesPattern e name pattern = Some (spec_matches (dot_as_question pattern) name)"
  using regexp_compile_fragment [OF assms(1)] match_glob_items [OF assms(2)]
  by (simp add: matchesPattern_def match_alternative_def)

lemma dot_as_question_plain: "CHR ''.'' \<notin> set pattern \<Longrightarrow> dot_as_question pattern = pattern"
  by (induction pattern) (auto simp: dot_as_question_def)

subsection \<open>Claim C5\<close>

text \<open>
  C5. The claim reads: the pattern compiler escapes every regular-expression
  metacharacter other than \<^verbatim>\<open>*\<close> and \<^verbatim>\<open>?\<close>, so that \<^verbatim>\<open>file.txt\<close> does not match
  \<^verbatim>\<open>fileAtxt\<close>. \<^verbatim>\<open>matchesPattern\<close> escapes nothing: the source built for
  \<^verbatim>\<open>file.txt\<close> is \<^verbatim>\<open>^file.txt$\<close>, whose dot matches any character, and
  \<^verbatim>\<open>fileAtxt\<close> is matched.
\<close>

theorem matchesPattern_dot_unescaped:
  "regex_source ''file.txt'' = ''^file.txt$'' \<and>
   matchesPattern e ''fileAtxt'' ''file.txt'' = Some True \<and>
   matchesPattern e ''file.txt'' ''file.txt'' = Some True"
  by (simp add: regex_eval string_eval)

subsection \<open>Claim C6\<close>

text \<open>
  C6. The claim reads: for every file name and pattern the matcher treats \<^verbatim>\<open>*\<close>
  as zero or more characters and \<^verbatim>\<open>?\<close> as exactly one, compares
  case-insensitively and matches the entire name, never a substring.
  \<^verbatim>\<open>matchesPattern\<close> anchors its regular expression with \<^verbatim>\<open>^\<close> and \<^verbatim>\<open>$\<close>, but
  for the pattern \<^verbatim>\<open>a|b\<close> the source is \<^verbatim>\<open>^a|b$\<close>, which matches the name
  \<^verbatim>\<open>abc\<close> by its first letter alone: the bar is passed on unescaped, as the
  dot of C5 is. And the dot that \<^verbatim>\<open>?\<close> is replaced by does not match a line
  feed, so \<^verbatim>\<open>?\<close> does not match the name that consists of one line feed.
\<close>

theorem matchesPattern_alternation_unanchored:
  "matchesPattern data_env ''abc'' ''a|b'' = Some True \<and> \<not> spec_matches ''a|b'' ''abc'' \<and>
   matchesPattern data_env [CHR 0x0A] ''?'' = Some False \<and> spec_matches ''?'' [CHR 0x0A]"
  by (simp add: regex_eval string_eval)

text \<open>
  What does hold: on a file name without a line terminator and a pattern whose
  characters other than \<^verbatim>\<open>*\<close> and \<^verbatim>\<open>?\<close> are not regular-expression syntax
  characters, the matcher agrees with the specification's matcher; and the four
  examples of the claim come out as the claim says.
\<close>

lemma matchesPattern_plain_pattern:
  "(list_all (\<lambda>c. c = CHR ''*'' \<or> c = CHR ''?'' \<or> \<not> syntax_character c) pattern \<longrightarrow>
    list_all (\<lambda>c. \<not> line_terminator c) name \<longrightarrow>
      matchesPattern e name pattern = Some (spec_matches pattern name)) \<and>
   matchesPattern e ''report.txt'' ''*.txt'' = Some True \<and>
   matchesPattern e ''report.txt'' ''*.TXT'' = Some True \<and>
   matchesPattern e ''a.txt'' ''?.txt'' = Some True \<and>
   matchesPattern e ''ab.txt'' ''?.txt'' = Some False"
proof -
  have general: "matchesPattern e name pattern = Some (spec_matches pattern name)"
    if p: "list_all (\<lambda>c. c = CHR ''*'' \<or> c = CHR ''?'' \<or> \<not> syntax_character c) pattern"
      and n: "list_all (\<lambda>c. \<not> line_terminator c) name"
  proof -
    from p have all: "\<forall>c\<in>set pattern. c = CHR ''*'' \<or> c = CHR ''?'' \<or> \<not> syntax_character c"
      by (simp add: list_all_iff)
    then have f: "fragment_pattern pattern"
      unfolding fragment_pattern_def list_all_iff by blast
    have "syntax_character (CHR ''.'')" by (simp add: syntax_character_def)
    with all have "CHR ''.'' \<notin> set pattern" by fastforce
    then have "dot_as_question pattern = pattern" by (rule dot_as_question_plain)
    with matchesPattern_fragment [OF f n, of e] show ?thesis by simp
  qed
  have 1: "matchesPattern e ''report.txt'' ''*.txt'' = Some True"
    by (simp add: regex_eval string_eval)
  have 2: "matchesPattern e ''report.txt'' ''*.TXT'' = Some True"
    by (simp add: regex_eval string_eval)
  have 3: "matchesPattern e ''a.txt'' ''?.txt'' = Some True"
    by (simp add: regex_eval string_eval)
  have 4: "matchesPattern e ''ab.txt'' ''?.txt'' = Some False"
    by (simp add: regex_eval string_eval)
  from general 1 2 3 4 show ?thesis by blast
qed

section \<open>Searching\<close>

lemmas search_eval = searchInDirectory.simps search_files_def subdirectories_def files_in_def
  files_at_depth_def chain_depth_def chain_env_def

lemma for_each_invariant:
  assumes "I s" and "\<And>x u. x \<in> set xs \<Longrightarrow> I u \<Longrightarrow> I (fst (body x u))"
  shows "I (fst (for_each body xs s))"
  using assms
proof (induction xs arbitrary: s)
  case Nil
  then show ?case by simp
next
  case (Cons x xs)
  obtain s' err where b: "body x s = (s', err)" by (cases "body x s")
  from Cons.prems(1) Cons.prems(2) [of x s] b have s': "I s'" by simp
  show ?case
  proof (cases err)
    case None
    have "I (fst (for_each body xs s'))"
      by (rule Cons.IH [OF s']) (simp add: Cons.prems(2))
    with b None show ?thesis by simp
  next
    case (Some a)
    with b s' show ?thesis by simp
  qed
qed

lemma files_in_at_depth:
  assumes "dirPath \<in> set (dirs_at_depth e root depth)"
    and "fs_readdir e dirPath = Some entries" and "x \<in> set entries" and "d_kind x = File"
  shows "path_join dirPath (d_name x) \<in> set (files_at_depth e root depth)"
proof -
  have "path_join dirPath (d_name x) \<in> set (files_in e dirPath)"
    using assms(2-4) by (simp add: files_in_def)
  with assms(1) show ?thesis by (auto simp: files_at_depth_def)
qed

lemma subdirectory_at_depth:
  assumes "dirPath \<in> set (dirs_at_depth e root depth)"
    and "fs_readdir e dirPath = Some entries" and "x \<in> set entries" and "d_kind x = Directory"
  shows "path_join dirPath (d_name x) \<in> set (dirs_at_depth e root (depth + 1))"
proof -
  have "path_join dirPath (d_name x) \<in> set (subdirectories e dirPath)"
    using assms(2-4) by (simp add: subdirectories_def)
  with assms(1) show ?thesis by auto
qed

lemma within_ceiling_append:
  "within_ceiling e root items \<Longrightarrow> n \<le> 10 \<Longrightarrow> sr_path item \<in> set (files_at_depth e root n) \<Longrightarrow>
     within_ceiling e root (items @ [item])"
  by (auto simp: within_ceiling_def)

lemma search_within_ceiling:
  "dirPath \<in> set (dirs_at_depth e root depth) \<Longrightarrow> within_ceiling e root results \<Longrightarrow>
     within_ceiling e root (fst (searchInDirectory e pattern recursive dirPath depth results))"
proof (induction e pattern recursive dirPath depth results rule: searchInDirectory.induct)
  case (1 e pattern recursive dirPath depth results)
  show ?case
  proof (cases "10 < depth")
    case True
    with "1.prems" show ?thesis by (simp add: searchInDirectory.simps)
  next
    case False
    note shallow = False
    show ?thesis
    proof (cases "fs_readdir e dirPath")
      case None
      with shallow "1.prems" show ?thesis by (simp add: searchInDirectory.simps)
    next
      case (Some entries)
      let ?body = "\<lambda>entry results.
                  let entryPath = path_join dirPath (d_name entry) in
                  if d_kind entry = File then
                    (case matchesPattern e (d_name entry) pattern of
                       None \<Rightarrow> (results, Some InvalidPattern)
                     | Some False \<Rightarrow> (results, None)
                     | Some True \<Rightarrow>
                         (case fs_stat e entryPath of
                            None \<Rightarrow> (results, Some FsFailure)
                          | Some st \<Rightarrow>
                              (results @
                                [\<lparr>sr_name = d_name entry,
                                  sr_path = entryPath,
                                  sr_directory = path_dirname entryPath,
                                  sr_size = st_size st,
                                  sr_sizeFormatted = formatFileSize (st_size st),
                                  sr_lastModified = st_mtime st,
                                  sr_extension = path_extname (d_name entry),
                                  sr_mimeType = mime_or_unknown e entryPath\<rparr>],
                               None)))
                  else if d_kind entry = Directory \<and> recursive then
                    (fst (searchInDirectory e pattern recursive entryPath (depth + 1) results), None)
                  else (results, None)"
      have step: "within_ceiling e root (fst (?body x u))"
        if x: "x \<in> set entries" and u: "within_ceiling e root u" for x u
      proof (cases "d_kind x = File")
        case True
        from files_in_at_depth [OF "1.prems"(1) Some x True]
        have "path_join dirPath (d_name x) \<in> set (files_at_depth e root depth)" .
        with u shallow True show ?thesis
          by (auto simp: Let_def intro!: within_ceiling_append [where n = depth]
                split: option.splits bool.splits)
      next
        case False
        note not_file = False
        show ?thesis
        proof (cases "d_kind x = Directory \<and> recursive")
          case True
          from subdirectory_at_depth [OF "1.prems"(1) Some x] True
          have "path_join dirPath (d_name x) \<in> set (dirs_at_depth e root (depth + 1))" by simp
          from "1.IH" [OF shallow Some x refl not_file True this u]
          show ?thesis using not_file True by (simp add: Let_def)
        next
          case False
          with not_file u show ?thesis by (auto simp: Let_def)
        qed
      qed
      have "within_ceiling e root (fst (for_each ?body entries results))"
        by (rule for_each_invariant [where I = "within_ceiling e root"]) (use "1.prems"(2) step in auto)
      with shallow Some show ?thesis by (simp add: searchInDirectory.simps)
    qed
  qed
qed

subsection \<open>Claim C9\<close>

text \<open>
  C9. \<^verbatim>\<open>searchInDirectory\<close> is total (its termination order is the distance of
  \<open>depth\<close> from 11): a recursive search ends on every directory tree, cyclic and
  endless ones included. A call at a depth above 10 returns at once, without an
  error and without pushing anything; hence every item a search emits is a file
  entry of a directory at most 10 levels below the search root. On the chain of
  depth 15 the files of the root and of the first ten levels are found and nothing
  deeper.
\<close>

theorem search_depth_ceiling:
  "(10 < depth \<longrightarrow> searchInDirectory e pattern recursive dirPath depth results = (results, None)) \<and>
   (\<forall>item\<in>set (fst (searchInDirectory e pattern recursive root 0 [])).
      \<exists>n\<le>10. sr_path item \<in> set (files_at_depth e root n)) \<and>
   (search_files e cfg search_path pattern recursive = Inr res \<longrightarrow>
      (\<forall>item\<in>set (ss_results res).
         \<exists>n\<le>10. sr_path item \<in> set (files_at_depth e (ss_searchPath res) n)))"
proof -
  have top: "within_ceiling e r (fst (searchInDirectory e pattern recursive r 0 []))" for r
    by (rule search_within_ceiling) (simp_all add: within_ceiling_def)
  have 1: "10 < depth \<longrightarrow> searchInDirectory e pattern recursive dirPath depth results = (results, None)"
    by (simp add: searchInDirectory.simps)
  have 2: "\<forall>item\<in>set (fst (searchInDirectory e pattern recursive root 0 [])).
      \<exists>n\<le>10. sr_path item \<in> set (files_at_depth e root n)"
    using top [of root] by (simp add: within_ceiling_def)
  have 3: "\<forall>item\<in>set (ss_results res).
         \<exists>n\<le>10. sr_path item \<in> set (files_at_depth e (ss_searchPath res) n)"
    if "search_files e cfg search_path pattern recursive = Inr res"
  proof -
    from that obtain vp results where
      "res = \<lparr>ss_searchPath = vp, ss_pattern = pattern, ss_recursive = recursive,
              ss_results = results, ss_count = length results\<rparr>"
      "results = fst (searchInDirectory e pattern recursive vp 0 [])"
      by (auto simp: search_files_def split: sum.splits prod.splits option.splits)
    with top [of vp] show ?thesis by (simp add: within_ceiling_def)
  qed
  from 1 2 3 show ?thesis by blast
qed

lemma chain_search:
  "searchInDirectory chain_env ''*.txt'' True ''/r'' 0 [] =
     (map (\<lambda>(p, n). \<lparr>sr_name = ''f.txt'', sr_path = p @ ''/f.txt'', sr_directory = p, sr_size = n,
                      sr_sizeFormatted = show_nat n @ ''.0 B'', sr_lastModified = 0,
                      sr_extension = ''.txt'', sr_mimeType = ''text/plain''\<rparr>)
        [(''/r'', 1), (''/r/d'', 2), (''/r/d/d'', 3), (''/r/d/d/d'', 4), (''/r/d/d/d/d'', 5),
         (''/r/d/d/d/d/d'', 6), (''/r/d/d/d/d/d/d'', 7), (''/r/d/d/d/d/d/d/d'', 8),
         (''/r/d/d/d/d/d/d/d/d'', 9), (''/r/d/d/d/d/d/d/d/d/d'', 10),
         (''/r/d/d/d/d/d/d/d/d/d/d'', 11)],
      None)"
  by (simp add: search_eval regex_eval string_eval path_eval size_eval gate_eval example_eval)

theorem search_depth_ceiling_witness:
  "map sr_path (ss_results (projr (search_files chain_env ex_cfg ''/r'' ''*.txt'' True))) =
     [''/r/f.txt'', ''/r/d/f.txt'', ''/r/d/d/f.txt'', ''/r/d/d/d/f.txt'', ''/r/d/d/d/d/f.txt'',
      ''/r/d/d/d/d/d/f.txt'', ''/r/d/d/d/d/d/d/f.txt'', ''/r/d/d/d/d/d/d/d/f.txt'',
      ''/r/d/d/d/d/d/d/d/d/f.txt'', ''/r/d/d/d/d/d/d/d/d/d/f.txt'',
      ''/r/d/d/d/d/d/d/d/d/d/d/f.txt''] \<and>
   files_at_depth chain_env ''/r'' 10 = [''/r/d/d/d/d/d/d/d/d/d/d/f.txt''] \<and>
   files_at_depth chain_env ''/r'' 11 = [''/r/d/d/d/d/d/d/d/d/d/d/d/f.txt''] \<and>
   files_at_depth chain_env ''/r'' 15 = [''/r/d/d/d/d/d/d/d/d/d/d/d/d/d/d/d/f.txt''] \<and>
   searchInDirectory chain_env ''*.txt'' True ''/r/d/d/d/d/d/d/d/d/d/d/d'' 11 [] = ([], None)"
proof -
  have v: "validatePath (cwd chain_env) ''/r'' (restrictedPaths ex_cfg) = Inr ''/r''"
    by (simp add: string_eval path_eval example_eval chain_env_def)
  have s: "map sr_path (ss_results (projr (search_files chain_env ex_cfg ''/r'' ''*.txt'' True))) =
     [''/r/f.txt'', ''/r/d/f.txt'', ''/r/d/d/f.txt'', ''/r/d/d/d/f.txt'', ''/r/d/d/d/d/f.txt'',
      ''/r/d/d/d/d/d/f.txt'', ''/r/d/d/d/d/d/d/f.txt'', ''/r/d/d/d/d/d/d/d/f.txt'',
      ''/r/d/d/d/d/d/d/d/d/f.txt'', ''/r/d/d/d/d/d/d/d/d/d/f.txt'',
      ''/r/d/d/d/d/d/d/d/d/d/d/f.txt'']"
    by (simp add: search_files_def v chain_search)
  have f10: "files_at_depth chain_env ''/r'' 10 = [''/r/d/d/d/d/d/d/d/d/d/d/f.txt'']"
    by (simp add: eval_nat_numeral search_eval path_eval)
  have f11: "files_at_depth chain_env ''/r'' 11 = [''/r/d/d/d/d/d/d/d/d/d/d/d/f.txt'']"
    by (simp add: eval_nat_numeral search_eval path_eval)
  have f15: "files_at_depth chain_env ''/r'' 15 = [''/r/d/d/d/d/d/d/d/d/d/d/d/d/d/d/d/f.txt'']"
    by (simp add: eval_nat_numeral search_eval path_eval)
  from search_depth_ceiling [of 11 chain_env "''*.txt''" True "''/r/d/d/d/d/d/d/d/d/d/d/d''" "[]"]
  have "searchInDirectory chain_env ''*.txt'' True ''/r/d/d/d/d/d/d/d/d/d/d/d'' 11 [] = ([], None)"
    by simp
  with s f10 f11 f15 show ?thesis by simp
qed

subsection \<open>Claim C10\<close>

lemma as_empty_simps [simp]:
  "fs_stat (as_empty e d) = fs_stat e"
  "matchesPattern (as_empty e d) name pattern = matchesPattern e name pattern"
  "mime_or_unknown (as_empty e d) p = mime_or_unknown e p"
  "cwd (as_empty e d) = cwd e"
  "dirPath \<noteq> d \<Longrightarrow> fs_readdir (as_empty e d) dirPath = fs_readdir e dirPath"
  "fs_readdir (as_empty e d) d = Some []"
  by (simp_all add: as_empty_def matchesPattern_def mime_or_unknown_def split: option.splits)

lemma search_unreadable_as_empty:
  "fs_readdir e d = None \<Longrightarrow>
     fst (searchInDirectory (as_empty e d) pattern recursive dirPath depth results) =
       fst (searchInDirectory e pattern recursive dirPath depth results) \<and>
     (dirPath \<noteq> d \<longrightarrow>
        searchInDirectory (as_empty e d) pattern recursive dirPath depth results =
          searchInDirectory e pattern recursive dirPath depth results)"
proof (induction e pattern recursive dirPath depth results rule: searchInDirectory.induct)
  case (1 e pattern recursive dirPath depth results)
  show ?case
  proof (cases "10 < depth")
    case True
    then show ?thesis by (simp add: searchInDirectory.simps)
  next
    case False
    note shallow = False
    show ?thesis
    proof (cases "dirPath = d")
      case True
      with shallow "1.prems" show ?thesis by (simp add: searchInDirectory.simps)
    next
      case False
      note other = False
      show ?thesis
      proof (cases "fs_readdir e dirPath")
        case None
        with shallow other show ?thesis by (simp add: searchInDirectory.simps)
      next
        case (Some entries)
        let ?body = "\<lambda>env entry results.
                  let entryPath = path_join dirPath (d_name entry) in
                  if d_kind entry = File then
                    (case matchesPattern env (d_name entry) pattern of
                       None \<Rightarrow> (results, Some InvalidPattern)
                     | Some False \<Rightarrow> (results, None)
                     | Some True \<Rightarrow>
                         (case fs_stat env entryPath of
                            None \<Rightarrow> (results, Some FsFailure)
                          | Some st \<Rightarrow>
                              (results @
                                [\<lparr>sr_name = d_name entry,
                                  sr_path = entryPath,
                                  sr_directory = path_dirname entryPath,
                                  sr_size = st_size st,
                                  sr_sizeFormatted = formatFileSize (st_size st),
                                  sr_lastModified = st_mtime st,
                                  sr_extension = path_extname (d_name entry),
                                  sr_mimeType = mime_or_unknown env entryPath\<rparr>],
                               None)))
                  else if d_kind entry = Directory \<and> recursive then
                    (fst (searchInDirectory env pattern recursive entryPath (depth + 1) results), None)
                  else (results, None)"
        have body: "?body (as_empty e d) x u = ?body e x u" if x: "x \<in> set entries" for x u
        proof (cases "d_kind x = File")
          case True
          then show ?thesis by (simp add: Let_def cong: option.case_cong bool.case_cong)
        next
          case False
          note not_file = False
          show ?thesis
          proof (cases "d_kind x = Directory \<and> recursive")
            case True
            from "1.IH" [OF shallow Some x refl not_file True "1.prems"]
            have "fst (searchInDirectory (as_empty e d) pattern recursive (path_join dirPath (d_name x)) (depth + 1) u) =
              fst (searchInDirectory e pattern recursive (path_join dirPath (d_name x)) (depth + 1) u)"
              by blast
            then show ?thesis unfolding Let_def if_not_P [OF not_file] if_P [OF True] by simp
          next
            case False
            show ?thesis unfolding Let_def if_not_P [OF not_file] if_not_P [OF False] by simp
          qed
        qed
        have loop: "for_each (?body (as_empty e d)) entries results = for_each (?body e) entries results"
          by (rule for_each_cong) (simp_all only: body)
        have "searchInDirectory (as_empty e d) pattern recursive dirPath depth results =
              for_each (?body (as_empty e d)) entries results"
          using shallow other Some
          by (subst searchInDirectory.simps) simp
        moreover have "searchInDirectory e pattern recursive dirPath depth results =
              for_each (?body e) entries results"
          using shallow Some
          by (subst searchInDirectory.simps) simp
        ultimately have "searchInDirectory (as_empty e d) pattern recursive dirPath depth results =
              searchInDirectory e pattern recursive dirPath depth results"
          using loop by simp
        then show ?thesis by simp
      qed
    qed
  qed
qed

text \<open>
  C10. A subdirectory whose enumeration fails is skipped silently: the call made
  for it pushes nothing, its error is dropped by the \<^verbatim>\<open>try\<close> around the recursive
  call, and, unless it is the search root itself, the whole search returns what it
  would return if that directory were empty. The search still succeeds with the
  results collected from the other directories.
\<close>

theorem unreadable_subdirectory_skipped:
  assumes "fs_readdir e d = None"
  shows "fst (searchInDirectory e pattern recursive d depth results) = results \<and>
         (d \<noteq> path_resolve (cwd e) search_path \<longrightarrow>
            search_files e cfg search_path pattern recursive =
              search_files (e\<lparr>fs_readdir := (fs_readdir e)(d \<mapsto> [])\<rparr>) cfg search_path pattern recursive)"
proof (intro conjI impI)
  show "fst (searchInDirectory e pattern recursive d depth results) = results"
    using assms by (simp add: searchInDirectory.simps)
next
  assume root: "d \<noteq> path_resolve (cwd e) search_path"
  show "search_files e cfg search_path pattern recursive =
          search_files (e\<lparr>fs_readdir := (fs_readdir e)(d \<mapsto> [])\<rparr>) cfg search_path pattern recursive"
  proof (cases "validatePath (cwd e) search_path (restrictedPaths cfg)")
    case (Inl err)
    then show ?thesis by (simp add: search_files_def)
  next
    case (Inr vp)
    with validatePath_cases [of "cwd e" search_path "restrictedPaths cfg"]
    have "vp = path_resolve (cwd e) search_path" by auto
    with root have "vp \<noteq> d" by simp
    with search_unreadable_as_empty [OF assms, of pattern recursive vp 0 "[]"]
    have "searchInDirectory (as_empty e d) pattern recursive vp 0 [] =
          searchInDirectory e pattern recursive vp 0 []" by simp
    with Inr show ?thesis
      by (simp add: search_files_def as_empty_def)
  qed
qed

theorem unreadable_subdirectory_skipped_witness:
  "fs_readdir data_env ''/data/locked'' = None \<and>
   search_files data_env ex_cfg ''/data'' ''*.txt'' True =
     Inr \<lparr>ss_searchPath = ''/data'', ss_pattern = ''*.txt'', ss_recursive = True,
          ss_results =
            [\<lparr>sr_name = ''notes.txt'', sr_path = ''/data/notes.txt'', sr_directory = ''/data'',
              sr_size = 1048576, sr_sizeFormatted = ''1.0 MB'', sr_lastModified = 0,
              sr_extension = ''.txt'', sr_mimeType = ''text/plain''\<rparr>,
             \<lparr>sr_name = ''big.txt'', sr_path = ''/data/big.txt'', sr_directory = ''/data'',
              sr_size = 1048577, sr_sizeFormatted = ''1.0 MB'', sr_lastModified = 0,
              sr_extension = ''.txt'', sr_mimeType = ''text/plain''\<rparr>,
             \<lparr>sr_name = ''deep.txt'', sr_path = ''/data/sub/deep.txt'', sr_directory = ''/data/sub'',
              sr_size = 4, sr_sizeFormatted = ''4.0 B'', sr_lastModified = 0,
              sr_extension = ''.txt'', sr_mimeType = ''text/plain''\<rparr>],
          ss_count = 3\<rparr> \<and>
   search_files (data_env\<lparr>fs_readdir := (fs_readdir data_env)(''/data/locked'' \<mapsto> [])\<rparr>)
       ex_cfg ''/data'' ''*.txt'' True =
     search_files data_env ex_cfg ''/data'' ''*.txt'' True \<and>
   search_files data_env ex_cfg ''/data/locked'' ''*.txt'' True = Inl FsFailure"
proof -
  have n: "fs_readdir data_env ''/data/locked'' = None"
    by (simp add: example_eval)
  have r: "''/data/locked'' \<noteq> path_resolve (cwd data_env) ''/data''"
    by (simp add: path_eval example_eval)
  have s: "search_files data_env ex_cfg ''/data'' ''*.txt'' True =
     Inr \<lparr>ss_searchPath = ''/data'', ss_pattern = ''*.txt'', ss_recursive = True,
          ss_results =
            [\<lparr>sr_name = ''notes.txt'', sr_path = ''/data/notes.txt'', sr_directory = ''/data'',
              sr_size = 1048576, sr_sizeFormatted = ''1.0 MB'', sr_lastModified = 0,
              sr_extension = ''.txt'', sr_mimeType = ''text/plain''\<rparr>,
             \<lparr>sr_name = ''big.txt'', sr_path = ''/data/big.txt'', sr_directory = ''/data'',
              sr_size = 1048577, sr_sizeFormatted = ''1.0 MB'', sr_lastModified = 0,
              sr_extension = ''.txt'', sr_mimeType = ''text/plain''\<rparr>,
             \<lparr>sr_name = ''deep.txt'', sr_path = ''/data/sub/deep.txt'', sr_directory = ''/data/sub'',
              sr_size = 4, sr_sizeFormatted = ''4.0 B'', sr_lastModified = 0,
              sr_extension = ''.txt'', sr_mimeType = ''text/plain''\<rparr>],
          ss_count = 3\<rparr>"
    by (simp add: search_eval regex_eval string_eval path_eval size_eval gate_eval example_eval)
  have l: "search_files data_env ex_cfg ''/data/locked'' ''*.txt'' True = Inl FsFailure"
    by (simp add: search_eval string_eval path_eval example_eval)
  from unreadable_subdirectory_skipped [OF n, of "''*.txt''" True 1 "[]" "''/data''" ex_cfg] r
  have "search_files (data_env\<lparr>fs_readdir := (fs_readdir data_env)(''/data/locked'' \<mapsto> [])\<rparr>)
       ex_cfg ''/data'' ''*.txt'' True =
     search_files data_env ex_cfg ''/data'' ''*.txt'' True"
    by simp
  with n s l show ?thesis by simp
qed

end
